theory Spec2Isabelle
  imports Main "HOL-Library.Word" "HOL-Library.Signed_Division"
begin

unbundle bit_operations_syntax

section \<open>Data model of the FourZone keyboard driver\<close>

text \<open>
  The embedding follows the animation-capable variant of the driver. C \<open>int\<close> values
  that stay far from the 32-bit limits (return codes, sizes, percentages) are HOL
  \<open>int\<close>; bytes are \<open>8 word\<close>; C's \<open>/\<close> on \<open>int\<close> truncates towards zero and is
  written \<open>sdiv\<close>.
\<close>

type_synonym u8 = "8 word"
type_synonym u32 = "32 word"

text \<open>Kernel errno values (from the kernel headers, outside the driver).\<close>

abbreviation (input) EINVAL :: int where "EINVAL \<equiv> 22"

text \<open>\<open>enum hp_wmi_commandtype\<close>: the two selectors the driver uses.\<close>

abbreviation (input) HPWMI_FOURZONE_COLOR_GET :: int where "HPWMI_FOURZONE_COLOR_GET \<equiv> 2"
abbreviation (input) HPWMI_FOURZONE_COLOR_SET :: int where "HPWMI_FOURZONE_COLOR_SET \<equiv> 3"

text \<open>\<open>enum hp_wmi_command\<close> with its numeric values.\<close>

datatype hp_wmi_command = HPWMI_READ | HPWMI_WRITE | HPWMI_FOURZONE | HPWMI_GAMING

fun command_value :: "hp_wmi_command \<Rightarrow> int" where
  "command_value HPWMI_READ = 0x01"
| "command_value HPWMI_WRITE = 0x02"
| "command_value HPWMI_FOURZONE = 0x020009"
| "command_value HPWMI_GAMING = 0x020008"

text \<open>\<open>enum hp_return_value\<close>.\<close>

abbreviation (input) HPWMI_RET_WRONG_SIGNATURE :: int where "HPWMI_RET_WRONG_SIGNATURE \<equiv> 0x02"
abbreviation (input) HPWMI_RET_UNKNOWN_COMMAND :: int where "HPWMI_RET_UNKNOWN_COMMAND \<equiv> 0x03"
abbreviation (input) HPWMI_RET_UNKNOWN_CMDTYPE :: int where "HPWMI_RET_UNKNOWN_CMDTYPE \<equiv> 0x04"
abbreviation (input) HPWMI_RET_INVALID_PARAMETERS :: int where "HPWMI_RET_INVALID_PARAMETERS \<equiv> 0x05"

record bios_args =
  signature :: u32
  command :: u32
  commandtype :: u32
  datasize :: u32
  data :: "u8 list"

text \<open>
  What \<open>wmi_evaluate_method\<close> hands back: a buffer object, read by the driver as the
  8-byte \<open>struct bios_return\<close> (\<open>sigpass\<close>, \<open>return_code\<close>) followed by the payload
  bytes, or an object of another ACPI type.
\<close>

datatype acpi_object =
  ACPI_BUFFER (sigpass: u32) (return_code: u32) (payload: "u8 list")
| ACPI_OTHER

abbreviation (input) ZONE_COUNT :: nat where "ZONE_COUNT \<equiv> 4"
abbreviation (input) ANIMATION_SPEED_MIN :: int where "ANIMATION_SPEED_MIN \<equiv> 1"
abbreviation (input) ANIMATION_SPEED_MAX :: int where "ANIMATION_SPEED_MAX \<equiv> 10"

datatype animation_mode =
  ANIMATION_STATIC
| ANIMATION_BREATHING
| ANIMATION_RAINBOW
| ANIMATION_WAVE
| ANIMATION_PULSE
| ANIMATION_CHASE
| ANIMATION_SPARKLE
| ANIMATION_CANDLE
| ANIMATION_AURORA
| ANIMATION_DISCO

abbreviation (input) ANIMATION_COUNT :: nat where "ANIMATION_COUNT \<equiv> 10"

text \<open>The enumerators' integer values, and the mode an in-range integer denotes.\<close>

fun mode_value :: "animation_mode \<Rightarrow> nat" where
  "mode_value ANIMATION_STATIC = 0"
| "mode_value ANIMATION_BREATHING = 1"
| "mode_value ANIMATION_RAINBOW = 2"
| "mode_value ANIMATION_WAVE = 3"
| "mode_value ANIMATION_PULSE = 4"
| "mode_value ANIMATION_CHASE = 5"
| "mode_value ANIMATION_SPARKLE = 6"
| "mode_value ANIMATION_CANDLE = 7"
| "mode_value ANIMATION_AURORA = 8"
| "mode_value ANIMATION_DISCO = 9"

definition mode_of_value :: "nat \<Rightarrow> animation_mode" where
  "mode_of_value n =
     (if n = 0 then ANIMATION_STATIC
      else if n = 1 then ANIMATION_BREATHING
      else if n = 2 then ANIMATION_RAINBOW
      else if n = 3 then ANIMATION_WAVE
      else if n = 4 then ANIMATION_PULSE
      else if n = 5 then ANIMATION_CHASE
      else if n = 6 then ANIMATION_SPARKLE
      else if n = 7 then ANIMATION_CANDLE
      else if n = 8 then ANIMATION_AURORA
      else ANIMATION_DISCO)"

text \<open>\<open>struct color_platform\<close>: packed, members in the order blue, green, red.\<close>

record color_platform =
  blue :: u8
  green :: u8
  red :: u8

text \<open>
  \<open>struct platform_zone\<close>. The \<open>attr\<close> pointer is only ever compared for equality, so
  it is an identifier.
\<close>

record platform_zone =
  offset :: u8
  attr :: nat
  colors :: color_platform

text \<open>Messages of \<open>pr_warn\<close>, \<open>pr_err\<close>, \<open>pr_info\<close> and \<open>WARN_ON\<close>, in the order issued.\<close>

datatype klog_msg =
  Warn_on
| Warn_query int int
| Warn_color_get int
| Warn_color_set int
| Err_invalid_zone
| Warn_save_failed
| Info_saved
| Info_no_state
| Warn_read_failed
| Info_loaded nat int int

text \<open>
  The driver's globals, together with the parts of the world it acts on: the list of
  requests handed to \<open>wmi_evaluate_method\<close> so far (method id and request, oldest
  first), the kernel log, whether \<open>animation_timer\<close> is armed, and the contents of the
  state file (\<open>None\<close>: no such file). Of \<open>original_colors\<close> the driver only ever
  touches the \<open>colors\<close> member, so that is what the list holds.
\<close>

record driver =
  global_brightness :: int
  original_colors :: "color_platform list"
  current_animation :: animation_mode
  animation_speed :: int
  animation_start_time :: nat
  animation_active :: bool
  timer_pending :: bool
  zone_data :: "platform_zone list"
  wmi_calls :: "(int \<times> bios_args) list"
  klog :: "klog_msg list"
  state_file :: "u8 list option"

text \<open>
  The collaborators outside the driver, as parameters:
  \<^item> \<open>wmi_evaluate_method\<close>: the firmware's answer to a request, which may depend on
    every request made before it (\<open>None\<close>: no object returned);
  \<^item> \<open>kstrtoul\<close>: the kernel's string-to-number routine, given the text and the base,
    returning its status (0 on success) and the number;
  \<^item> \<open>stack_bytes\<close>: what the uninitialised 128-byte local \<open>state\<close> of
    \<open>fourzone_update_led\<close> happens to hold;
  \<^item> \<open>filp_open_wr\<close>: whether opening the state file for writing succeeds;
  \<^item> \<open>jiffies\<close>, \<open>msecs_to_jiffies\<close>: the kernel's tick counter and conversion.
\<close>

record env =
  wmi_evaluate_method :: "(int \<times> bios_args) list \<Rightarrow> int \<Rightarrow> bios_args \<Rightarrow> acpi_object option"
  kstrtoul :: "string \<Rightarrow> nat \<Rightarrow> int \<times> nat"
  stack_bytes :: "u8 list"
  filp_open_wr :: bool
  jiffies :: nat
  msecs_to_jiffies :: "int \<Rightarrow> nat"

section \<open>Protocol codec\<close>

definition encode_outsize_for_pvsz :: "int \<Rightarrow> int" where
  "encode_outsize_for_pvsz outsize =
     (if outsize > 4096 then - EINVAL
      else if outsize > 1024 then 5
      else if outsize > 128 then 4
      else if outsize > 4 then 3
      else if outsize > 0 then 2
      else 1)"

text \<open>
  \<open>hp_wmi_perform_query\<close> returns its status and leaves the output in the caller's
  buffer; the model returns the status, the buffer and the new state. The comparison
  \<open>insize > sizeof(args.data)\<close> is unsigned, so a negative \<open>insize\<close> is refused as well.
  The request built from the \<open>args\<close> initialiser and the \<open>memcpy\<close> carries the
  first \<open>insize\<close> bytes of the buffer, zero-padded to 128.
\<close>

definition query_args :: "int \<Rightarrow> hp_wmi_command \<Rightarrow> u8 list \<Rightarrow> int \<Rightarrow> bios_args" where
  "query_args query cmd buffer insize =
     \<lparr>signature = 0x55434553,
      command = word_of_int (command_value cmd),
      commandtype = word_of_int query,
      datasize = word_of_int insize,
      data = take (nat insize) buffer @ replicate (128 - nat insize) 0\<rparr>"

definition hp_wmi_perform_query ::
  "env \<Rightarrow> int \<Rightarrow> hp_wmi_command \<Rightarrow> u8 list \<Rightarrow> int \<Rightarrow> int \<Rightarrow> driver \<Rightarrow> int \<times> u8 list \<times> driver" where
  "hp_wmi_perform_query e query cmd buffer insize outsize s =
     (let mid = encode_outsize_for_pvsz outsize in
      if mid < 0 then (mid, buffer, s\<lparr>klog := klog s @ [Warn_on]\<rparr>)
      else if insize < 0 \<or> insize > 128 then (- EINVAL, buffer, s\<lparr>klog := klog s @ [Warn_on]\<rparr>)
      else
        let args = query_args query cmd buffer insize;
            obj = wmi_evaluate_method e (wmi_calls s) mid args;
            s1 = s\<lparr>wmi_calls := wmi_calls s @ [(mid, args)]\<rparr>
        in case obj of
             None \<Rightarrow> (- EINVAL, buffer, s1)
           | Some ACPI_OTHER \<Rightarrow> (- EINVAL, buffer, s1)
           | Some (ACPI_BUFFER sg rc pl) \<Rightarrow>
               let ret = sint rc in
               if ret \<noteq> 0 then
                 (ret, buffer,
                  if ret \<noteq> HPWMI_RET_UNKNOWN_COMMAND \<and> ret \<noteq> HPWMI_RET_UNKNOWN_CMDTYPE
                  then s1\<lparr>klog := klog s1 @ [Warn_query query ret]\<rparr> else s1)
               else if outsize = 0 then (ret, buffer, s1)
               else
                 let actual_outsize = min outsize (int (length pl))
                 in (ret,
                     take (nat actual_outsize) pl
                       @ replicate (nat (outsize - actual_outsize)) 0
                       @ drop (nat outsize) buffer,
                     s1))"

section \<open>Zone and color model\<close>

text \<open>
  \<open>parse_rgb\<close> writes through its \<open>zone\<close> pointer only on success; the model returns
  the status and the zone. The union \<open>color_union\<close> overlays the packed struct on the
  \<open>int\<close> \<open>package\<close>: on the little-endian x86 machines the driver runs on, \<open>blue\<close> is
  the lowest byte of the number, \<open>green\<close> the next and \<open>red\<close> the third. The
  \<open>pr_debug\<close> line prints nothing in a normal build and is left out.
\<close>

definition repackager :: "nat \<Rightarrow> color_platform" where
  "repackager rgb =
     (let package = (word_of_nat rgb :: u32)
      in \<lparr>blue = ucast package,
          green = ucast (drop_bit 8 package),
          red = ucast (drop_bit 16 package)\<rparr>)"

definition parse_rgb :: "env \<Rightarrow> string \<Rightarrow> platform_zone \<Rightarrow> int \<times> platform_zone" where
  "parse_rgb e buf zone =
     (case kstrtoul e buf 16 of (ret, rgb) \<Rightarrow>
        if ret \<noteq> 0 then (ret, zone)
        else if rgb > 0xFFFFFF then (- EINVAL, zone)
        else (0, zone\<lparr>colors := repackager rgb\<rparr>))"

text \<open>The zone is returned as its index in \<open>zone_data\<close> (\<open>None\<close> for \<open>NULL\<close>).\<close>

definition match_zone :: "driver \<Rightarrow> nat \<Rightarrow> nat option" where
  "match_zone s a = find (\<lambda>zone. attr (zone_data s ! zone) = a) [0..<ZONE_COUNT]"

text \<open>
  \<open>fourzone_update_led\<close> on the zone \<open>zone_data[z]\<close>. The local frame \<open>state\<close> starts
  as whatever the stack holds. Offsets are those of \<open>fourzone_setup\<close> (at most 34), so
  every index is inside the 128-byte frame.
\<close>

definition fourzone_update_led :: "env \<Rightarrow> nat \<Rightarrow> hp_wmi_command \<Rightarrow> driver \<Rightarrow> int \<times> driver" where
  "fourzone_update_led e z rw s =
     (case hp_wmi_perform_query e HPWMI_FOURZONE_COLOR_GET HPWMI_FOURZONE
             (stack_bytes e) 128 128 s of
        (ret, state, s1) \<Rightarrow>
          if ret \<noteq> 0 then
            (if ret \<le> 0 then ret else - EINVAL, s1\<lparr>klog := klog s1 @ [Warn_color_get ret]\<rparr>)
          else
            let zone = zone_data s1 ! z; off = unat (offset zone) in
            if rw = HPWMI_WRITE then
              let state' = state[off + 0 := red (colors zone),
                                 off + 1 := green (colors zone),
                                 off + 2 := blue (colors zone)]
              in case hp_wmi_perform_query e HPWMI_FOURZONE_COLOR_SET HPWMI_FOURZONE
                        state' 128 128 s1 of
                   (ret', _, s2) \<Rightarrow>
                     (ret', if ret' \<noteq> 0 then s2\<lparr>klog := klog s2 @ [Warn_color_set ret']\<rparr> else s2)
            else
              (0, s1\<lparr>zone_data := (zone_data s1)
                        [z := zone\<lparr>colors := (colors zone)
                                \<lparr>red := state ! (off + 0),
                                 green := state ! (off + 1),
                                 blue := state ! (off + 2)\<rparr>\<rparr>]\<rparr>))"

text \<open>\<open>apply_brightness_to_color\<close> reads the global brightness of the state.\<close>

definition apply_brightness_to_color :: "driver \<Rightarrow> color_platform \<Rightarrow> color_platform" where
  "apply_brightness_to_color s color =
     color\<lparr>red := word_of_int ((uint (red color) * global_brightness s) sdiv 100),
           green := word_of_int ((uint (green color) * global_brightness s) sdiv 100),
           blue := word_of_int ((uint (blue color) * global_brightness s) sdiv 100)\<rparr>"

section \<open>Persistence\<close>

text \<open>
  The file holds the memory image of \<open>struct animation_state\<close>: three 4-byte
  little-endian integers (mode, speed, brightness) and four packed colors, 24 bytes.
\<close>

definition le32 :: "u32 \<Rightarrow> u8 list" where
  "le32 w = [ucast w, ucast (drop_bit 8 w), ucast (drop_bit 16 w), ucast (drop_bit 24 w)]"

definition rd32 :: "u8 list \<Rightarrow> u32" where
  "rd32 bs = ucast (bs ! 0) OR push_bit 8 (ucast (bs ! 1))
               OR push_bit 16 (ucast (bs ! 2)) OR push_bit 24 (ucast (bs ! 3))"

definition color_bytes :: "color_platform \<Rightarrow> u8 list" where
  "color_bytes c = [blue c, green c, red c]"

definition color_of_bytes :: "u8 list \<Rightarrow> color_platform" where
  "color_of_bytes bs = \<lparr>blue = bs ! 0, green = bs ! 1, red = bs ! 2\<rparr>"

abbreviation (input) sizeof_animation_state :: nat where "sizeof_animation_state \<equiv> 24"

definition animation_state_bytes :: "driver \<Rightarrow> u8 list" where
  "animation_state_bytes s =
     le32 (word_of_nat (mode_value (current_animation s)))
       @ le32 (word_of_int (animation_speed s))
       @ le32 (word_of_int (global_brightness s))
       @ concat (map (\<lambda>i. color_bytes (original_colors s ! i)) [0..<ZONE_COUNT])"

text \<open>
  \<open>save_animation_state\<close>: the directory lookup and creation only bear on whether
  \<open>filp_open\<close> succeeds, which is the environment's answer; \<open>kernel_write\<close>, whose result
  the driver ignores, is taken to write the whole record into the truncated file.
\<close>

definition save_animation_state :: "env \<Rightarrow> driver \<Rightarrow> driver" where
  "save_animation_state e s =
     (if \<not> filp_open_wr e then s\<lparr>klog := klog s @ [Warn_save_failed]\<rparr>
      else s\<lparr>state_file := Some (animation_state_bytes s), klog := klog s @ [Info_saved]\<rparr>)"

text \<open>
  \<open>load_animation_state\<close>: \<open>kernel_read\<close> delivers at most \<open>sizeof(state)\<close> bytes from
  the start of the file and returns how many it delivered. The enumeration is an
  unsigned type, so \<open>state.mode >= 0\<close> always holds.
\<close>

definition load_animation_state :: "driver \<Rightarrow> driver" where
  "load_animation_state s =
     (case state_file s of
        None \<Rightarrow> s\<lparr>klog := klog s @ [Info_no_state]\<rparr>
      | Some file \<Rightarrow>
          let state = take sizeof_animation_state file in
          if length state \<noteq> sizeof_animation_state
          then s\<lparr>klog := klog s @ [Warn_read_failed]\<rparr>
          else
            let mode = unat (rd32 (take 4 state));
                speed = sint (rd32 (take 4 (drop 4 state)));
                brightness = sint (rd32 (take 4 (drop 8 state)));
                s1 = (if mode < ANIMATION_COUNT
                      then s\<lparr>current_animation := mode_of_value mode\<rparr> else s);
                s2 = (if speed \<ge> ANIMATION_SPEED_MIN \<and> speed \<le> ANIMATION_SPEED_MAX
                      then s1\<lparr>animation_speed := speed\<rparr> else s1);
                s3 = (if brightness \<ge> 0 \<and> brightness \<le> 100
                      then s2\<lparr>global_brightness := brightness\<rparr> else s2);
                s4 = s3\<lparr>original_colors :=
                          fold (\<lambda>i oc. oc[i := color_of_bytes (take 3 (drop (12 + 3 * i) state))])
                               [0..<ZONE_COUNT] (original_colors s3)\<rparr>
            in s4\<lparr>klog := klog s4 @ [Info_loaded (mode_value (current_animation s4))
                                                  (animation_speed s4) (global_brightness s4)]\<rparr>)"

section \<open>Animation scheduler\<close>

text \<open>
  A \<open>for\<close> loop over zones whose body can leave the function with \<open>return ret\<close>: the
  zones are visited in order and the first non-zero status ends the loop and is the
  result; 0 means the loop ran to its end.
\<close>

fun for_zones :: "(nat \<Rightarrow> driver \<Rightarrow> int \<times> driver) \<Rightarrow> nat list \<Rightarrow> driver \<Rightarrow> int \<times> driver" where
  "for_zones body [] s = (0, s)"
| "for_zones body (zone # zs) s =
     (case body zone s of (ret, s') \<Rightarrow> if ret \<noteq> 0 then (ret, s') else for_zones body zs s')"

text \<open>
  The body of the loop of \<open>stop_animation\<close> for one zone; the write's result is
  ignored, so the loop is a plain \<open>fold\<close> over the zones.
\<close>

definition stop_animation_zone :: "env \<Rightarrow> nat \<Rightarrow> driver \<Rightarrow> driver" where
  "stop_animation_zone e zone s =
     (let s1 = s\<lparr>zone_data := (zone_data s)
                   [zone := (zone_data s ! zone)\<lparr>colors := original_colors s ! zone\<rparr>]\<rparr>;
          s2 = s1\<lparr>zone_data := (zone_data s1)
                   [zone := (zone_data s1 ! zone)
                      \<lparr>colors := apply_brightness_to_color s1 (colors (zone_data s1 ! zone))\<rparr>]\<rparr>
      in snd (fourzone_update_led e zone HPWMI_WRITE s2))"

definition stop_animation :: "env \<Rightarrow> driver \<Rightarrow> driver" where
  "stop_animation e s =
     fold (stop_animation_zone e) [0..<ZONE_COUNT]
       (s\<lparr>animation_active := False, timer_pending := False\<rparr>)"

definition start_animation :: "env \<Rightarrow> driver \<Rightarrow> driver" where
  "start_animation e s =
     (if current_animation s = ANIMATION_STATIC then s\<lparr>animation_active := False\<rparr>
      else s\<lparr>animation_start_time := jiffies e, animation_active := True, timer_pending := True\<rparr>)"

text \<open>The body of the loop of \<open>update_all_zones_with_colors\<close> for one zone.\<close>

definition update_zone_with_color :: "env \<Rightarrow> color_platform list \<Rightarrow> nat \<Rightarrow> driver \<Rightarrow> driver" where
  "update_zone_with_color e cs zone s =
     (let s1 = s\<lparr>zone_data := (zone_data s)
                   [zone := (zone_data s ! zone)\<lparr>colors := cs ! zone\<rparr>]\<rparr>;
          s2 = s1\<lparr>zone_data := (zone_data s1)
                   [zone := (zone_data s1 ! zone)
                      \<lparr>colors := apply_brightness_to_color s1 (colors (zone_data s1 ! zone))\<rparr>]\<rparr>
      in snd (fourzone_update_led e zone HPWMI_WRITE s2))"

definition update_all_zones_with_colors :: "env \<Rightarrow> color_platform list \<Rightarrow> driver \<Rightarrow> driver" where
  "update_all_zones_with_colors e cs s = fold (update_zone_with_color e cs) [0..<ZONE_COUNT] s"

text \<open>
  \<open>animation_disco\<close>. \<open>elapsed\<close> is an unsigned 64-bit difference. The two divisions fault
  on a zero divisor, which the model reports as \<open>None\<close>.
\<close>

definition animation_disco :: "env \<Rightarrow> driver \<Rightarrow> driver option" where
  "animation_disco e s =
     (if animation_speed s = 0 then None
      else
        let elapsed = (jiffies e + 2 ^ 64 - animation_start_time s mod 2 ^ 64) mod 2 ^ 64;
            cycle_time = msecs_to_jiffies e (300 sdiv animation_speed s)
        in if cycle_time = 0 then None
           else
             let cycle_pos = elapsed mod cycle_time;
                 cs = (if cycle_pos < cycle_time div 2
                       then [\<lparr>blue = 0, green = 0, red = 255\<rparr>,
                             \<lparr>blue = 0, green = 255, red = 0\<rparr>,
                             \<lparr>blue = 255, green = 0, red = 0\<rparr>,
                             \<lparr>blue = 255, green = 0, red = 255\<rparr>]
                       else replicate ZONE_COUNT \<lparr>blue = 0, green = 0, red = 0\<rparr>)
             in Some (update_all_zones_with_colors e cs s))"

section \<open>The write endpoints\<close>

text \<open>
  \<open>zone_set\<close>: \<open>a\<close> identifies the attribute written to, \<open>count\<close> is the length of the
  text; the result is what the handler returns.
\<close>

definition zone_set :: "env \<Rightarrow> nat \<Rightarrow> string \<Rightarrow> int \<Rightarrow> driver \<Rightarrow> int \<times> driver" where
  "zone_set e a buf count s =
     (case match_zone s a of
        None \<Rightarrow> (1, s\<lparr>klog := klog s @ [Err_invalid_zone]\<rparr>)
      | Some zone_idx \<Rightarrow>
          (case parse_rgb e buf (zone_data s ! zone_idx) of (ret, target_zone) \<Rightarrow>
             let s1 = s\<lparr>zone_data := (zone_data s)[zone_idx := target_zone]\<rparr> in
             if ret \<noteq> 0 then (ret, s1)
             else
               let s2 = stop_animation e s1;
                   s3 = s2\<lparr>current_animation := ANIMATION_STATIC\<rparr>;
                   tc = colors (zone_data s3 ! zone_idx);
                   s4 = s3\<lparr>original_colors := (original_colors s3)
                             [zone_idx := (original_colors s3 ! zone_idx)
                                \<lparr>red := red tc, green := green tc, blue := blue tc\<rparr>]\<rparr>;
                   tc' = tc\<lparr>red := word_of_int ((uint (red tc) * global_brightness s4) sdiv 100),
                           green := word_of_int ((uint (green tc) * global_brightness s4) sdiv 100),
                           blue := word_of_int ((uint (blue tc) * global_brightness s4) sdiv 100)\<rparr>;
                   s5 = s4\<lparr>zone_data := (zone_data s4)
                             [zone_idx := (zone_data s4 ! zone_idx)\<lparr>colors := tc'\<rparr>]\<rparr>
               in case fourzone_update_led e zone_idx HPWMI_WRITE s5 of (ret', s6) \<Rightarrow>
                    if ret' \<noteq> 0 then (ret', s6) else (count, save_animation_state e s6)))"

text \<open>
  The body of the loop of \<open>brightness_set\<close> for one zone; \<open>level\<close> is an
  \<open>unsigned long\<close> of at most 100. A non-zero status is the early \<open>return ret\<close>.
\<close>

definition brightness_set_zone :: "env \<Rightarrow> nat \<Rightarrow> nat \<Rightarrow> driver \<Rightarrow> int \<times> driver" where
  "brightness_set_zone e level zone s =
     (case fourzone_update_led e zone HPWMI_READ s of (ret, s1) \<Rightarrow>
        if ret \<noteq> 0 then (ret, s1)
        else
          let zc = colors (zone_data s1 ! zone);
              s2 = s1\<lparr>original_colors := (original_colors s1)
                        [zone := (original_colors s1 ! zone)
                           \<lparr>red := red zc, green := green zc, blue := blue zc\<rparr>]\<rparr>;
              zc' = zc\<lparr>red := word_of_nat ((unat (red zc) * level) div 100),
                      green := word_of_nat ((unat (green zc) * level) div 100),
                      blue := word_of_nat ((unat (blue zc) * level) div 100)\<rparr>;
              s3 = s2\<lparr>zone_data := (zone_data s2)[zone := (zone_data s2 ! zone)\<lparr>colors := zc'\<rparr>]\<rparr>
          in fourzone_update_led e zone HPWMI_WRITE s3)"

definition brightness_set :: "env \<Rightarrow> string \<Rightarrow> int \<Rightarrow> driver \<Rightarrow> int \<times> driver" where
  "brightness_set e buf count s =
     (case kstrtoul e buf 10 of (r, lv) \<Rightarrow>
        if r \<noteq> 0 then (- EINVAL, s)
        else
          let level = (if lv > 100 then 100 else lv);
              s1 = s\<lparr>global_brightness := int level\<rparr>
          in case for_zones (brightness_set_zone e level) [0..<ZONE_COUNT] s1 of (ret, s2) \<Rightarrow>
               if ret \<noteq> 0 then (ret, s2) else (count, save_animation_state e s2))"

text \<open>The body of the loop of \<open>all_set\<close> for one zone, with \<open>temp.colors\<close> as \<open>tc\<close>.\<close>

definition all_set_zone :: "env \<Rightarrow> color_platform \<Rightarrow> nat \<Rightarrow> driver \<Rightarrow> int \<times> driver" where
  "all_set_zone e tc z s =
     (let s1 = s\<lparr>original_colors := (original_colors s)[z := tc]\<rparr>;
          zc = (colors (zone_data s1 ! z))
                 \<lparr>red := word_of_int ((uint (red tc) * global_brightness s1) sdiv 100),
                  green := word_of_int ((uint (green tc) * global_brightness s1) sdiv 100),
                  blue := word_of_int ((uint (blue tc) * global_brightness s1) sdiv 100)\<rparr>;
          s2 = s1\<lparr>zone_data := (zone_data s1)[z := (zone_data s1 ! z)\<lparr>colors := zc\<rparr>]\<rparr>
      in fourzone_update_led e z HPWMI_WRITE s2)"

text \<open>
  \<open>all_set\<close>: the local \<open>temp\<close> is uninitialised; only its \<open>colors\<close>, assigned by a
  successful \<open>parse_rgb\<close>, are read.
\<close>

definition all_set :: "env \<Rightarrow> platform_zone \<Rightarrow> string \<Rightarrow> int \<Rightarrow> driver \<Rightarrow> int \<times> driver" where
  "all_set e temp buf count s =
     (case parse_rgb e buf temp of (ret, temp') \<Rightarrow>
        if ret \<noteq> 0 then (ret, s)
        else
          let s1 = stop_animation e s;
              s2 = s1\<lparr>current_animation := ANIMATION_STATIC\<rparr>
          in case for_zones (all_set_zone e (colors temp')) [0..<ZONE_COUNT] s2 of (ret', s3) \<Rightarrow>
               if ret' \<noteq> 0 then (ret', s3) else (count, save_animation_state e s3))"

section \<open>Environments and states used in the examples\<close>

text \<open>
  A model of the kernel's \<open>kstrtoul\<close> (\<open>lib/kstrtox.c\<close>, outside the driver), used
  only to instantiate the environment in examples: an optional \<open>+\<close>, for base 16 an
  optional \<open>0x\<close>, at least one digit, an optional final newline, nothing else;
  \<open>-ERANGE\<close> when the number does not fit 64 bits, \<open>-EINVAL\<close> otherwise.
\<close>

definition digit_of :: "char \<Rightarrow> nat" where
  "digit_of c =
     (let n = (of_char c :: nat) in
      if 48 \<le> n \<and> n \<le> 57 then n - 48
      else if 97 \<le> n \<and> n \<le> 102 then n - 87
      else if 65 \<le> n \<and> n \<le> 70 then n - 55
      else 16)"

definition kernel_kstrtoul :: "string \<Rightarrow> nat \<Rightarrow> int \<times> nat" where
  "kernel_kstrtoul s base =
     (let s1 = (case s of [] \<Rightarrow> s | c # r \<Rightarrow> if c = CHR ''+'' then r else s);
          s2 = (if base = 16
                then (case s1 of
                        c # x # r \<Rightarrow>
                          if c = CHR ''0'' \<and> (x = CHR ''x'' \<or> x = CHR ''X'') then r else s1
                      | _ \<Rightarrow> s1)
                else s1);
          ds = takeWhile (\<lambda>c. digit_of c < base) s2;
          rest = dropWhile (\<lambda>c. digit_of c < base) s2;
          v = foldl (\<lambda>acc c. acc * base + digit_of c) 0 ds
      in if 2 ^ 64 \<le> v then (- 34, 0)
         else if ds = [] then (- 22, 0)
         else if rest = [] \<or> rest = [CHR 0x0A] then (0, v)
         else (- 22, 0))"

text \<open>
  A keyboard that keeps the last frame it was sent: it answers a color GET with the
  frame, a color SET with success, anything else with "unknown command type".
\<close>

definition hw_frame :: "u8 list \<Rightarrow> (int \<times> bios_args) list \<Rightarrow> u8 list" where
  "hw_frame f0 calls = foldl (\<lambda>f (m, a). if commandtype a = 3 then data a else f) f0 calls"

definition echo_firmware ::
  "u8 list \<Rightarrow> (int \<times> bios_args) list \<Rightarrow> int \<Rightarrow> bios_args \<Rightarrow> acpi_object option" where
  "echo_firmware f0 calls mid a =
     (if commandtype a = 2 then Some (ACPI_BUFFER (signature a) 0 (hw_frame f0 calls))
      else if commandtype a = 3 then Some (ACPI_BUFFER (signature a) 0 [])
      else Some (ACPI_BUFFER (signature a) 4 []))"

definition demo_env :: "u8 list \<Rightarrow> env" where
  "demo_env f0 =
     \<lparr>wmi_evaluate_method = echo_firmware f0,
      kstrtoul = kernel_kstrtoul,
      stack_bytes = replicate 128 0xAA,
      filp_open_wr = True,
      jiffies = 1000,
      msecs_to_jiffies = (\<lambda>m. nat m)\<rparr>"

text \<open>
  The driver after loading with no state file, on a keyboard whose zones are dark:
  the globals at their initialisers, the zones as \<open>fourzone_setup\<close> lays them out
  (offset \<open>25 + 3 * zone\<close>, one attribute each).
\<close>

definition black :: color_platform where
  "black = \<lparr>blue = 0, green = 0, red = 0\<rparr>"

definition demo_driver :: driver where
  "demo_driver =
     \<lparr>global_brightness = 100,
      original_colors = [black, black, black, black],
      current_animation = ANIMATION_STATIC,
      animation_speed = 1,
      animation_start_time = 0,
      animation_active = False,
      timer_pending = False,
      zone_data = [\<lparr>offset = 25, attr = 0, colors = black\<rparr>,
                   \<lparr>offset = 28, attr = 1, colors = black\<rparr>,
                   \<lparr>offset = 31, attr = 2, colors = black\<rparr>,
                   \<lparr>offset = 34, attr = 3, colors = black\<rparr>],
      wmi_calls = [],
      klog = [],
      state_file = None\<rparr>"

text \<open>The same driver with zone 0 set to red 1, green 2, blue 3 and zone 1 to 4, 5, 6.\<close>

definition painted_driver :: driver where
  "painted_driver =
     demo_driver\<lparr>zone_data :=
       [\<lparr>offset = 25, attr = 0, colors = \<lparr>blue = 3, green = 2, red = 1\<rparr>\<rparr>,
        \<lparr>offset = 28, attr = 1, colors = \<lparr>blue = 6, green = 5, red = 4\<rparr>\<rparr>,
        \<lparr>offset = 31, attr = 2, colors = black\<rparr>,
        \<lparr>offset = 34, attr = 3, colors = black\<rparr>]\<rparr>"

text \<open>The driver of the first example while the rainbow effect runs.\<close>

definition animating_driver :: driver where
  "animating_driver =
     demo_driver\<lparr>current_animation := ANIMATION_RAINBOW, animation_start_time := 400,
                  animation_active := True, timer_pending := True\<rparr>"

text \<open>
  The driver at brightness 50 with zone 0 remembered as red 200, green 100, blue 50.
\<close>

definition lit_driver :: driver where
  "lit_driver =
     demo_driver\<lparr>global_brightness := 50,
                  original_colors := [\<lparr>blue = 50, green = 100, red = 200\<rparr>, black, black, black]\<rparr>"

text \<open>
  A frame in which zone 0 is lit red 200, green 100, blue 50 and zone 1 red 10, green 20,
  blue 30; every other byte is 0.
\<close>

definition lit_frame :: "u8 list" where
  "lit_frame = replicate 25 0 @ [200, 100, 50, 10, 20, 30] @ replicate 97 0"

section \<open>Vocabulary of the properties\<close>

text \<open>
  The request of the color GET that opens every \<open>fourzone_update_led\<close>; the first 128
  bytes \<open>hp_wmi_perform_query\<close> leaves in the caller's buffer for a payload \<open>pl\<close> (the
  payload, cut or zero-filled to 128 bytes); one byte of that frame; the payload the
  firmware would deliver to a GET made in state \<open>s\<close> (\<open>None\<close>: the GET would fail); and
  the request of the color SET that a write of \<open>zone\<close> sends after a GET with payload
  \<open>pl\<close>.
\<close>

definition get_args :: "env \<Rightarrow> bios_args" where
  "get_args e = query_args HPWMI_FOURZONE_COLOR_GET HPWMI_FOURZONE (stack_bytes e) 128"

definition padded_frame :: "u8 list \<Rightarrow> u8 list" where
  "padded_frame pl =
     take (nat (min 128 (int (length pl)))) pl
       @ replicate (nat (128 - min 128 (int (length pl)))) 0"

definition frame_byte :: "u8 list \<Rightarrow> nat \<Rightarrow> u8" where
  "frame_byte pl j = (if j < length pl then pl ! j else 0)"

definition get_payload :: "env \<Rightarrow> driver \<Rightarrow> u8 list option" where
  "get_payload e s =
     (case wmi_evaluate_method e (wmi_calls s) 3 (get_args e) of
        Some (ACPI_BUFFER sg rc pl) \<Rightarrow> if rc = 0 then Some pl else None
      | _ \<Rightarrow> None)"

definition set_args :: "env \<Rightarrow> platform_zone \<Rightarrow> u8 list \<Rightarrow> bios_args" where
  "set_args e zone pl =
     query_args HPWMI_FOURZONE_COLOR_SET HPWMI_FOURZONE
       ((padded_frame pl @ drop 128 (stack_bytes e))
          [unat (offset zone) := red (colors zone),
           unat (offset zone) + 1 := green (colors zone),
           unat (offset zone) + 2 := blue (colors zone)]) 128"

text \<open>
  The color a frame, or a request's frame, holds for zone \<open>z\<close>, read the way the driver
  lays a zone out; the color \<open>brightness_set\<close> computes from a color \<open>c\<close> and a level; the
  spec's \<open>color * percent / 100\<close>, per channel and truncated, as a relation
  between a color \<open>c\<close> and its scaled version \<open>c'\<close>; and the layout of
  \<open>fourzone_setup\<close>: four zones at offsets 25, 28, 31, 34 and four original colors.
\<close>

definition zone_color :: "u8 list \<Rightarrow> nat \<Rightarrow> color_platform" where
  "zone_color frame z =
     \<lparr>blue = frame_byte frame (25 + 3 * z + 2), green = frame_byte frame (25 + 3 * z + 1),
      red = frame_byte frame (25 + 3 * z)\<rparr>"

definition wire_color :: "nat \<Rightarrow> bios_args \<Rightarrow> color_platform" where
  "wire_color z a = zone_color (data a) z"

definition dimmed :: "nat \<Rightarrow> color_platform \<Rightarrow> color_platform" where
  "dimmed level c =
     \<lparr>blue = word_of_nat ((unat (blue c) * level) div 100),
      green = word_of_nat ((unat (green c) * level) div 100),
      red = word_of_nat ((unat (red c) * level) div 100)\<rparr>"

definition scaled_from :: "int \<Rightarrow> color_platform \<Rightarrow> color_platform \<Rightarrow> bool" where
  "scaled_from percent c c' \<longleftrightarrow>
     uint (red c') = uint (red c) * percent div 100
     \<and> uint (green c') = uint (green c) * percent div 100
     \<and> uint (blue c') = uint (blue c) * percent div 100"

definition zones_laid_out :: "driver \<Rightarrow> bool" where
  "zones_laid_out s \<longleftrightarrow>
     map offset (zone_data s) = [25, 28, 31, 34] \<and> length (original_colors s) = ZONE_COUNT"

text \<open>
  \<open>sets_carry cs P\<close>: every color SET among the requests \<open>cs\<close> holds, for one of the
  four zones \<open>z\<close>, a color that satisfies \<open>P z\<close>. \<open>zone_writes b Z s s'\<close>: from \<open>s\<close> to
  \<open>s'\<close> requests were only added, every added SET holds for a zone \<open>z\<close> of \<open>Z\<close> that
  zone's original color in \<open>s'\<close> scaled by \<open>b\<close>, and the original colors of the zones
  outside \<open>Z\<close> are those of \<open>s\<close>. \<open>same_control s s'\<close>: the zone offsets, the number of
  original colors, the brightness, the animation mode, speed, active flag and timer,
  and the state file are the same in \<open>s'\<close> as in \<open>s\<close>.
\<close>

definition sets_carry :: "(int \<times> bios_args) list \<Rightarrow> (nat \<Rightarrow> color_platform \<Rightarrow> bool) \<Rightarrow> bool" where
  "sets_carry cs P \<longleftrightarrow>
     list_all (\<lambda>ca. commandtype (snd ca) = 3 \<longrightarrow>
                 list_ex (\<lambda>z. P z (wire_color z (snd ca))) [0..<ZONE_COUNT]) cs"

definition same_control :: "driver \<Rightarrow> driver \<Rightarrow> bool" where
  "same_control s s' \<longleftrightarrow>
     map offset (zone_data s') = map offset (zone_data s)
     \<and> length (original_colors s') = length (original_colors s)
     \<and> global_brightness s' = global_brightness s
     \<and> current_animation s' = current_animation s
     \<and> animation_speed s' = animation_speed s
     \<and> animation_active s' = animation_active s
     \<and> timer_pending s' = timer_pending s
     \<and> state_file s' = state_file s"

definition zone_writes :: "int \<Rightarrow> nat set \<Rightarrow> driver \<Rightarrow> driver \<Rightarrow> bool" where
  "zone_writes b Z s s' \<longleftrightarrow>
     (\<forall>z. z \<notin> Z \<longrightarrow> original_colors s' ! z = original_colors s ! z)
     \<and> (\<exists>cs. wmi_calls s' = wmi_calls s @ cs
            \<and> sets_carry cs (\<lambda>z c. z \<in> Z \<and> scaled_from b (original_colors s' ! z) c))"

section \<open>Properties\<close>

subsection \<open>Arithmetic of one scaled channel\<close>

lemma scaled_channel_uint:
  assumes "0 \<le> b" and "b \<le> 100"
  shows "uint (word_of_int ((uint (c :: u8) * b) sdiv 100) :: u8) = uint c * b div 100"
    and "uint c * b div 100 \<le> uint c"
proof -
  have c: "0 \<le> uint c" "uint c < 256"
    using uint_bounded [of c] by simp_all
  have nn: "0 \<le> uint c * b"
    using assms c by simp
  have "uint c * b \<le> uint c * 100"
    using assms c by (simp add: mult_left_mono)
  then have "uint c * b div 100 \<le> uint c * 100 div 100"
    by (rule zdiv_mono1) simp
  then show le: "uint c * b div 100 \<le> uint c"
    by simp
  have s: "(uint c * b) sdiv 100 = uint c * b div 100"
    using nn by (simp add: signed_divide_int_def sgn_if)
  have "0 \<le> uint c * b div 100"
    using nn by (simp add: pos_imp_zdiv_nonneg_iff)
  then show "uint (word_of_int ((uint c * b) sdiv 100) :: u8) = uint c * b div 100"
    using le c s by (simp add: uint_word_of_int)
qed

lemma scaled_channel_full: "(word_of_int ((uint (c :: u8) * 100) sdiv 100) :: u8) = c"
proof -
  have "uint c = 0 \<or> 0 < uint c"
    using uint_nonnegative [of c] by linarith
  then have "(uint c * 100) sdiv 100 = uint c * 100 div 100"
    by (auto simp add: signed_divide_int_def sgn_if)
  then show ?thesis
    by simp
qed

lemma repackager_channels:
  assumes "rgb \<le> 0xFFFFFF"
  shows "unat (red (repackager rgb)) = rgb div 65536"
    and "unat (green (repackager rgb)) = rgb div 256 mod 256"
    and "unat (blue (repackager rgb)) = rgb mod 256"
  using assms
  by (simp_all add: repackager_def Let_def unsigned_ucast_eq unat_drop_bit_eq drop_bit_eq_div
      unat_of_nat take_bit_eq_mod unat_div_distrib)

lemma sint_eq_small:
  "sint (rc :: u32) = 3 \<longleftrightarrow> rc = 3"
  "sint rc = 4 \<longleftrightarrow> rc = 4"
  "sint rc = 0 \<longleftrightarrow> rc = 0"
  by (simp_all add: word_eq_iff_signed [where ?'a = int])

lemma zone_indices: "[0..<4] = [0, 1, 2, 3]"
  by (simp add: upt_rec)

subsection \<open>One query, one zone update\<close>

lemma length_padded_frame [simp]: "length (padded_frame pl) = 128"
  by (simp add: padded_frame_def)

lemma nth_padded_frame: "j < 128 \<Longrightarrow> padded_frame pl ! j = frame_byte pl j"
  by (auto simp add: padded_frame_def nth_append frame_byte_def)

lemma encode_128 [simp]: "encode_outsize_for_pvsz 128 = 3"
  by (simp add: encode_outsize_for_pvsz_def)

lemma commandtype_query_args [simp]: "commandtype (query_args q cmd buf n) = word_of_int q"
  by (simp add: query_args_def)

lemma query_128:
  "hp_wmi_perform_query e q cmd buf 128 128 s =
     (case wmi_evaluate_method e (wmi_calls s) 3 (query_args q cmd buf 128) of
        None \<Rightarrow> (- 22, buf, s\<lparr>wmi_calls := wmi_calls s @ [(3, query_args q cmd buf 128)]\<rparr>)
      | Some ACPI_OTHER \<Rightarrow> (- 22, buf, s\<lparr>wmi_calls := wmi_calls s @ [(3, query_args q cmd buf 128)]\<rparr>)
      | Some (ACPI_BUFFER sg rc pl) \<Rightarrow>
          if rc \<noteq> 0 then
            (sint rc, buf,
             s\<lparr>wmi_calls := wmi_calls s @ [(3, query_args q cmd buf 128)],
               klog := klog s @ (if rc = 3 \<or> rc = 4 then [] else [Warn_query q (sint rc)])\<rparr>)
          else (0, padded_frame pl @ drop 128 buf,
                s\<lparr>wmi_calls := wmi_calls s @ [(3, query_args q cmd buf 128)]\<rparr>))"
  by (auto simp add: hp_wmi_perform_query_def Let_def sint_eq_small padded_frame_def
      split: option.splits acpi_object.splits)

lemma query_128_shape:
  "\<exists>ret buf' l. hp_wmi_perform_query e q cmd buf 128 128 s =
     (ret, buf', s\<lparr>wmi_calls := wmi_calls s @ [(3, query_args q cmd buf 128)],
                  klog := klog s @ l\<rparr>)"
proof (cases "wmi_evaluate_method e (wmi_calls s) 3 (query_args q cmd buf 128)")
  case None
  then show ?thesis
    by (intro exI [of _ "- 22"] exI [of _ buf] exI [of _ "[]"]) (simp add: query_128)
next
  case (Some obj)
  show ?thesis
  proof (cases obj)
    case ACPI_OTHER
    with Some show ?thesis
      by (intro exI [of _ "- 22"] exI [of _ buf] exI [of _ "[]"]) (simp add: query_128)
  next
    case (ACPI_BUFFER sg rc pl)
    show ?thesis
    proof (cases "rc = 0")
      case True
      with Some ACPI_BUFFER show ?thesis
        by (intro exI [of _ 0] exI [of _ "padded_frame pl @ drop 128 buf"] exI [of _ "[]"])
          (simp add: query_128)
    next
      case False
      with Some ACPI_BUFFER show ?thesis
        by (intro exI [of _ "sint rc"] exI [of _ buf]
            exI [of _ "if rc = 3 \<or> rc = 4 then [] else [Warn_query q (sint rc)]"])
          (simp add: query_128)
    qed
  qed
qed

lemma get_query_ok:
  assumes "get_payload e s = Some pl"
  shows "hp_wmi_perform_query e HPWMI_FOURZONE_COLOR_GET HPWMI_FOURZONE (stack_bytes e) 128 128 s
      = (0, padded_frame pl @ drop 128 (stack_bytes e),
         s\<lparr>wmi_calls := wmi_calls s @ [(3, get_args e)]\<rparr>)"
  using assms
  by (auto simp add: query_128 get_payload_def get_args_def
      split: option.splits acpi_object.splits if_splits)

lemma get_query_failed:
  assumes "get_payload e s = None"
  shows "\<exists>ret l. ret \<noteq> 0 \<and>
    hp_wmi_perform_query e HPWMI_FOURZONE_COLOR_GET HPWMI_FOURZONE (stack_bytes e) 128 128 s
      = (ret, stack_bytes e, s\<lparr>wmi_calls := wmi_calls s @ [(3, get_args e)], klog := klog s @ l\<rparr>)"
proof (cases "wmi_evaluate_method e (wmi_calls s) 3 (get_args e)")
  case None
  then show ?thesis
    by (intro exI [of _ "- 22"] exI [of _ "[]"]) (simp add: query_128 get_args_def)
next
  case (Some obj)
  show ?thesis
  proof (cases obj)
    case ACPI_OTHER
    with Some show ?thesis
      by (intro exI [of _ "- 22"] exI [of _ "[]"]) (simp add: query_128 get_args_def)
  next
    case (ACPI_BUFFER sg rc pl)
    with Some assms have "rc \<noteq> 0"
      by (auto simp add: get_payload_def)
    with Some ACPI_BUFFER show ?thesis
      by (intro exI [of _ "sint rc"]
            exI [of _ "if rc = 3 \<or> rc = 4 then [] else [Warn_query 2 (sint rc)]"])
        (simp add: query_128 get_args_def sint_eq_small)
  qed
qed

lemma ful_get_failed:
  assumes "get_payload e s = None"
  shows "\<exists>ret l. ret \<noteq> 0 \<and> fourzone_update_led e z rw s =
    (ret, s\<lparr>wmi_calls := wmi_calls s @ [(3, get_args e)], klog := klog s @ l\<rparr>)"
proof -
  obtain ret l where r: "ret \<noteq> 0"
    and q: "hp_wmi_perform_query e HPWMI_FOURZONE_COLOR_GET HPWMI_FOURZONE (stack_bytes e) 128 128 s
      = (ret, stack_bytes e, s\<lparr>wmi_calls := wmi_calls s @ [(3, get_args e)], klog := klog s @ l\<rparr>)"
    using get_query_failed [OF assms] by blast
  have "fourzone_update_led e z rw s =
      (if ret \<le> 0 then ret else - 22,
       s\<lparr>wmi_calls := wmi_calls s @ [(3, get_args e)], klog := klog s @ (l @ [Warn_color_get ret])\<rparr>)"
    using r by (simp add: fourzone_update_led_def q)
  moreover have "(if ret \<le> 0 then ret else - 22) \<noteq> 0"
    using r by simp
  ultimately show ?thesis by blast
qed

lemma ful_read_ok:
  assumes "get_payload e s = Some pl"
  shows "fourzone_update_led e z HPWMI_READ s =
    (0, s\<lparr>wmi_calls := wmi_calls s @ [(3, get_args e)],
          zone_data := (zone_data s)
            [z := (zone_data s ! z)\<lparr>colors := (colors (zone_data s ! z))
               \<lparr>red := (padded_frame pl @ drop 128 (stack_bytes e)) ! (unat (offset (zone_data s ! z))),
                green := (padded_frame pl @ drop 128 (stack_bytes e)) ! (unat (offset (zone_data s ! z)) + 1),
                blue := (padded_frame pl @ drop 128 (stack_bytes e)) ! (unat (offset (zone_data s ! z)) + 2)\<rparr>\<rparr>]\<rparr>)"
  by (simp add: fourzone_update_led_def get_query_ok [OF assms] Let_def)

lemma ful_write_ok:
  assumes "get_payload e s = Some pl"
  shows "\<exists>ret l. fourzone_update_led e z HPWMI_WRITE s =
    (ret, s\<lparr>wmi_calls := wmi_calls s @ [(3, get_args e), (3, set_args e (zone_data s ! z) pl)],
            klog := klog s @ l\<rparr>)"
proof -
  let ?s1 = "s\<lparr>wmi_calls := wmi_calls s @ [(3, get_args e)]\<rparr>"
  let ?F' = "(padded_frame pl @ drop 128 (stack_bytes e))
                        [unat (offset (zone_data s ! z)) := red (colors (zone_data s ! z)),
                         unat (offset (zone_data s ! z)) + 1 := green (colors (zone_data s ! z)),
                         unat (offset (zone_data s ! z)) + 2 := blue (colors (zone_data s ! z))]"
  obtain ret buf' l where q: "hp_wmi_perform_query e HPWMI_FOURZONE_COLOR_SET HPWMI_FOURZONE ?F' 128 128 ?s1
      = (ret, buf', ?s1\<lparr>wmi_calls := wmi_calls ?s1 @ [(3, query_args HPWMI_FOURZONE_COLOR_SET HPWMI_FOURZONE ?F' 128)],
                  klog := klog ?s1 @ l\<rparr>)"
    using query_128_shape [of e HPWMI_FOURZONE_COLOR_SET HPWMI_FOURZONE ?F' ?s1] by blast
  have "fourzone_update_led e z HPWMI_WRITE s =
      (ret, s\<lparr>wmi_calls := wmi_calls s @ [(3, get_args e), (3, set_args e (zone_data s ! z) pl)],
              klog := klog s @ (l @ (if ret \<noteq> 0 then [Warn_color_set ret] else []))\<rparr>)"
    using q by (simp add: fourzone_update_led_def get_query_ok [OF assms] Let_def set_args_def)
  then show ?thesis by blast
qed

lemma ful_write_shape:
  "\<exists>ret cs l. fourzone_update_led e z HPWMI_WRITE s =
       (ret, s\<lparr>wmi_calls := wmi_calls s @ cs, klog := klog s @ l\<rparr>)
     \<and> (cs = [(3, get_args e)]
         \<or> (\<exists>pl. cs = [(3, get_args e), (3, set_args e (zone_data s ! z) pl)]))"
proof (cases "get_payload e s")
  case None
  then show ?thesis using ful_get_failed [OF None, of z HPWMI_WRITE] by blast
next
  case (Some pl)
  then show ?thesis using ful_write_ok [OF Some, of z] by blast
qed

lemma ful_read_shape:
  "\<exists>ret l c. fourzone_update_led e z HPWMI_READ s =
       (ret, s\<lparr>wmi_calls := wmi_calls s @ [(3, get_args e)], klog := klog s @ l,
               zone_data := (zone_data s)[z := (zone_data s ! z)\<lparr>colors := c\<rparr>]\<rparr>)"
proof (cases "get_payload e s")
  case None
  then obtain ret l where "fourzone_update_led e z HPWMI_READ s =
      (ret, s\<lparr>wmi_calls := wmi_calls s @ [(3, get_args e)], klog := klog s @ l\<rparr>)"
    using ful_get_failed [OF None, of z HPWMI_READ] by blast
  then show ?thesis
    by (intro exI [of _ ret] exI [of _ l] exI [of _ "colors (zone_data s ! z)"]) simp
next
  case (Some pl)
  have "\<exists>c. fourzone_update_led e z HPWMI_READ s =
      (0, s\<lparr>wmi_calls := wmi_calls s @ [(3, get_args e)], klog := klog s @ [],
             zone_data := (zone_data s)[z := (zone_data s ! z)\<lparr>colors := c\<rparr>]\<rparr>)"
    unfolding ful_read_ok [OF Some] by (rule exI) simp
  then show ?thesis by blast
qed

lemma set_args_data:
  assumes "unat (offset zone) + 2 < 128"
  shows "length (data (set_args e zone pl)) = 128"
    and "j < 128 \<Longrightarrow>
      data (set_args e zone pl) ! j
        = (if j = unat (offset zone) then red (colors zone)
           else if j = unat (offset zone) + 1 then green (colors zone)
           else if j = unat (offset zone) + 2 then blue (colors zone)
           else frame_byte pl j)"
  using assms
  by (auto simp add: set_args_def query_args_def nth_list_update nth_append nth_padded_frame)

lemma commandtype_set_args [simp]: "commandtype (set_args e zone pl) = 3"
  by (simp add: set_args_def)

lemma commandtype_get_args [simp]: "commandtype (get_args e) = 2"
  by (simp add: get_args_def)

lemma zone_color_set_args:
  assumes "z < 4" and "unat (offset zone) = 25 + 3 * z" and "z' < 4"
  shows "zone_color (data (set_args e zone pl)) z'
           = (if z' = z then colors zone else zone_color pl z')"
proof -
  have off: "unat (offset zone) + 2 < 128"
    using assms by simp
  have fb: "frame_byte (data (set_args e zone pl)) j = data (set_args e zone pl) ! j"
    if "j < 128" for j
    using that set_args_data(1) [OF off, of e pl] by (simp add: frame_byte_def)
  have j: "25 + 3 * z' + k < 128" if "k < 3" for k
    using that assms(3) by simp
  show ?thesis
  proof (cases "z' = z")
    case True
    then show ?thesis
      using assms(1) set_args_data(2) [OF off, of "25 + 3 * z" e pl]
        set_args_data(2) [OF off, of "25 + 3 * z + 1" e pl]
        set_args_data(2) [OF off, of "25 + 3 * z + 2" e pl]
      by (simp add: zone_color_def fb assms(2))
  next
    case False
    then have ne: "25 + 3 * z' + k \<noteq> 25 + 3 * z + k'" if "k < 3" "k' < 3" for k k'
      using that by presburger
    show ?thesis
      using False j [of 0] j [of 1] j [of 2]
        set_args_data(2) [OF off, of "25 + 3 * z'" e pl]
        set_args_data(2) [OF off, of "25 + 3 * z' + 1" e pl]
        set_args_data(2) [OF off, of "25 + 3 * z' + 2" e pl]
        ne [of 0 0] ne [of 0 1] ne [of 0 2] ne [of 1 0] ne [of 1 1] ne [of 1 2]
        ne [of 2 0] ne [of 2 1] ne [of 2 2]
      by (simp add: zone_color_def fb assms(2))
  qed
qed

lemma wire_color_set_args:
  assumes "z < 4" and "unat (offset zone) = 25 + 3 * z"
  shows "wire_color z (set_args e zone pl) = colors zone"
  using zone_color_set_args [OF assms assms(1)] by (simp add: wire_color_def)

lemma zones_laid_out_offset:
  assumes "zones_laid_out s" and "z < 4"
  shows "unat (offset (zone_data s ! z)) = 25 + 3 * z" and "length (zone_data s) = 4"
proof -
  have m: "map offset (zone_data s) = [25, 28, 31, 34]"
    using assms(1) by (simp add: zones_laid_out_def)
  then show l: "length (zone_data s) = 4"
    by (metis length_map list.size(3,4) numeral_eq_Suc pred_numeral_simps(2,3) semiring_norm(26,27) One_nat_def add_Suc_right add.right_neutral numeral_One)
  have "offset (zone_data s ! z) = [25, 28, 31, 34] ! z"
    using m l assms(2) by (metis nth_map)
  moreover have "z = 0 \<or> z = 1 \<or> z = 2 \<or> z = 3"
    using assms(2) by auto
  ultimately show "unat (offset (zone_data s ! z)) = 25 + 3 * z"
    by auto
qed

lemma echo_get_payload:
  assumes "wmi_evaluate_method e = echo_firmware f0"
  shows "get_payload e s = Some (hw_frame f0 (wmi_calls s))"
  by (simp add: get_payload_def assms echo_firmware_def)

lemma demo_env_echo [simp]: "wmi_evaluate_method (demo_env f0) = echo_firmware f0"
  by (simp add: demo_env_def)

lemma hw_frame_Nil [simp]: "hw_frame f0 [] = f0"
  by (simp add: hw_frame_def)

subsection \<open>The state record on disk\<close>

lemma rd32_le32: "rd32 (le32 w) = w"
  apply (simp add: rd32_def le32_def)
  apply (rule bit_word_eqI)
  subgoal for n
    apply (cases "n < 8"; cases "n < 16"; cases "n < 24")
           apply (auto simp add: bit_or_iff bit_push_bit_iff bit_ucast_iff bit_drop_bit_eq)
    done
  done

lemma length_le32 [simp]: "length (le32 w) = 4"
  by (simp add: le32_def)

lemma length_color_bytes [simp]: "length (color_bytes c) = 3"
  by (simp add: color_bytes_def)

lemma color_of_bytes_color_bytes: "color_of_bytes (color_bytes c @ bs) = c"
  by (simp add: color_of_bytes_def color_bytes_def)

lemma list4: "length xs = 4 \<Longrightarrow> xs = [xs ! 0, xs ! 1, xs ! 2, xs ! 3]"
  by (auto simp add: list_eq_iff_nth_eq less_Suc_eq numeral_eq_Suc)

lemma mode_of_value_mode_value: "mode_of_value (mode_value m) = m"
  by (cases m) (simp_all add: mode_of_value_def)

lemma mode_value_less: "mode_value m < 10"
  by (cases m) simp_all

lemma length_animation_state_bytes: "length (animation_state_bytes s) = 24"
  by (simp add: animation_state_bytes_def zone_indices)


lemma load_short:
  assumes "state_file t = Some f" and "length f < 24"
  shows "load_animation_state t = t\<lparr>klog := klog t @ [Warn_read_failed]\<rparr>"
  using assms by (simp add: load_animation_state_def)

lemma load_fields:
  assumes "state_file t = Some f" and "24 \<le> length f"
  shows "current_animation (load_animation_state t)
           = (if unat (rd32 (take 4 f)) < 10 then mode_of_value (unat (rd32 (take 4 f)))
              else current_animation t)"
    and "animation_speed (load_animation_state t)
           = (if 1 \<le> sint (rd32 (take 4 (drop 4 f))) \<and> sint (rd32 (take 4 (drop 4 f))) \<le> 10
              then sint (rd32 (take 4 (drop 4 f))) else animation_speed t)"
    and "global_brightness (load_animation_state t)
           = (if 0 \<le> sint (rd32 (take 4 (drop 8 f))) \<and> sint (rd32 (take 4 (drop 8 f))) \<le> 100
              then sint (rd32 (take 4 (drop 8 f))) else global_brightness t)"
    and "original_colors (load_animation_state t)
           = fold (\<lambda>i oc. oc[i := color_of_bytes (take 3 (drop (12 + 3 * i) f))])
               [0..<4] (original_colors t)"
  using assms
  by (simp_all add: load_animation_state_def Let_def drop_take zone_indices)

lemma bytes_parts:
  "take 4 (animation_state_bytes s) = le32 (word_of_nat (mode_value (current_animation s)))"
  "take 4 (drop 4 (animation_state_bytes s)) = le32 (word_of_int (animation_speed s))"
  "take 4 (drop 8 (animation_state_bytes s)) = le32 (word_of_int (global_brightness s))"
  "drop 12 (animation_state_bytes s)
     = color_bytes (original_colors s ! 0) @ color_bytes (original_colors s ! 1)
       @ color_bytes (original_colors s ! 2) @ color_bytes (original_colors s ! 3)"
  by (simp_all add: animation_state_bytes_def zone_indices)

lemma sint_small: "- 1000 \<le> x \<Longrightarrow> x \<le> 1000 \<Longrightarrow> sint (word_of_int x :: u32) = x"
  by (simp add: signed_of_int signed_take_bit_int_eq_self)

lemma bytes_color:
  assumes "i < 4"
  shows "color_of_bytes (take 3 (drop (12 + 3 * i) (animation_state_bytes s))) = original_colors s ! i"
proof -
  have "i = 0 \<or> i = 1 \<or> i = 2 \<or> i = 3"
    using assms by auto
  then show ?thesis
    by (auto simp add: animation_state_bytes_def zone_indices color_bytes_def color_of_bytes_def
        le32_def)
qed

lemma save_load_fields:
  assumes "filp_open_wr e"
    and "1 \<le> animation_speed s" "animation_speed s \<le> 10"
    and "0 \<le> global_brightness s" "global_brightness s \<le> 100"
    and "length (original_colors s) = 4" "length (original_colors t) = 4"
  shows "current_animation (load_animation_state (t\<lparr>state_file := state_file (save_animation_state e s)\<rparr>))
           = current_animation s"
    and "animation_speed (load_animation_state (t\<lparr>state_file := state_file (save_animation_state e s)\<rparr>))
           = animation_speed s"
    and "global_brightness (load_animation_state (t\<lparr>state_file := state_file (save_animation_state e s)\<rparr>))
           = global_brightness s"
    and "original_colors (load_animation_state (t\<lparr>state_file := state_file (save_animation_state e s)\<rparr>))
           = original_colors s"
proof -
  let ?f = "animation_state_bytes s"
  let ?t = "t\<lparr>state_file := state_file (save_animation_state e s)\<rparr>"
  have sf: "state_file ?t = Some ?f"
    using assms(1) by (simp add: save_animation_state_def)
  have len: "24 \<le> length ?f"
    by (simp add: length_animation_state_bytes)
  have m: "unat (word_of_nat (mode_value (current_animation s)) :: u32) = mode_value (current_animation s)"
    using mode_value_less [of "current_animation s"] by (simp add: unat_of_nat)
  show "current_animation (load_animation_state ?t) = current_animation s"
    using mode_value_less [of "current_animation s"]
    by (simp add: load_fields(1) [OF sf len] bytes_parts rd32_le32 m mode_of_value_mode_value)
  show "animation_speed (load_animation_state ?t) = animation_speed s"
    using assms(2,3)
    by (simp add: load_fields(2) [OF sf len] bytes_parts rd32_le32 sint_small)
  show "global_brightness (load_animation_state ?t) = global_brightness s"
    using assms(4,5)
    by (simp add: load_fields(3) [OF sf len] bytes_parts rd32_le32 sint_small)
  obtain a b c d where abcd: "original_colors t = [a, b, c, d]"
    using list4 [OF assms(7)] by blast
  have "original_colors (load_animation_state ?t)
      = [original_colors s ! 0, original_colors s ! 1, original_colors s ! 2, original_colors s ! 3]"
    using bytes_color [of 0 s] bytes_color [of 1 s] bytes_color [of 2 s] bytes_color [of 3 s]
    by (simp add: load_fields(4) [OF sf len] zone_indices abcd)
  then show "original_colors (load_animation_state ?t) = original_colors s"
    using list4 [OF assms(6)] by simp
qed


subsection \<open>What the zone updates and the loops leave alone\<close>

lemma map_offset_update:
  assumes "z < length zd \<longrightarrow> offset v = offset (zd ! z)"
  shows "map offset (zd[z := v]) = map offset zd"
proof (cases "z < length zd")
  case True
  have "map offset (zd[z := v]) = (map offset zd)[z := map offset zd ! z]"
    using True assms by (simp add: map_update)
  then show ?thesis by simp
next
  case False
  then show ?thesis by (simp add: not_less list_update_beyond)
qed

lemma map_offset_colors_update [simp]:
  "map offset (zd[z := (zd ! z)\<lparr>colors := c\<rparr>]) = map offset zd"
  by (rule map_offset_update) simp

lemma sets_carry_Nil [simp]: "sets_carry [] P"
  by (simp add: sets_carry_def)

lemma sets_carry_append [simp]: "sets_carry (cs @ cs') P \<longleftrightarrow> sets_carry cs P \<and> sets_carry cs' P"
  by (simp add: sets_carry_def)

lemma sets_carry_get [simp]: "sets_carry [(m, get_args e)] P"
  by (simp add: sets_carry_def)

lemma sets_carry_mono:
  assumes "sets_carry cs P" and "\<And>z c. z < 4 \<Longrightarrow> P z c \<Longrightarrow> Q z c"
  shows "sets_carry cs Q"
  using assms unfolding sets_carry_def list_all_iff list_ex_iff by fastforce

lemma sets_carry_set:
  assumes "z < 4" and "P z (wire_color z a)"
  shows "sets_carry [(m, a)] P"
  using assms unfolding sets_carry_def list_all_iff list_ex_iff by auto

lemma ful_write_sets:
  assumes "unat (offset (zone_data s ! z)) = 25 + 3 * z" and "z < 4"
  shows "\<exists>ret cs l. fourzone_update_led e z HPWMI_WRITE s =
             (ret, s\<lparr>wmi_calls := wmi_calls s @ cs, klog := klog s @ l\<rparr>)
           \<and> sets_carry cs (\<lambda>z' c. z' = z \<and> c = colors (zone_data s ! z))"
proof -
  obtain ret cs l where w: "fourzone_update_led e z HPWMI_WRITE s =
       (ret, s\<lparr>wmi_calls := wmi_calls s @ cs, klog := klog s @ l\<rparr>)"
    and cs: "cs = [(3, get_args e)]
         \<or> (\<exists>pl. cs = [(3, get_args e), (3, set_args e (zone_data s ! z) pl)])"
    using ful_write_shape [of e z s] by blast
  have "sets_carry cs (\<lambda>z' c. z' = z \<and> c = colors (zone_data s ! z))"
  proof -
    have "sets_carry [(3, set_args e (zone_data s ! z) pl)]
        (\<lambda>z' c. z' = z \<and> c = colors (zone_data s ! z))" for pl
      using assms by (intro sets_carry_set [of z]) (simp_all add: wire_color_set_args)
    then have "sets_carry [(3, get_args e), (3, set_args e (zone_data s ! z) pl)]
        (\<lambda>z' c. z' = z \<and> c = colors (zone_data s ! z))" for pl
      using sets_carry_append [of "[(3, get_args e)]" "[(3, set_args e (zone_data s ! z) pl)]"]
      by simp
    then show ?thesis using cs by auto
  qed
  with w show ?thesis by blast
qed

subsection \<open>Loops over the zones\<close>

lemma same_control_refl [simp]: "same_control s s"
  by (simp add: same_control_def)

lemma same_control_trans: "same_control s s' \<Longrightarrow> same_control s' s'' \<Longrightarrow> same_control s s''"
  by (simp add: same_control_def)

lemma zone_writes_refl [simp]: "zone_writes b Z s s"
  by (simp add: zone_writes_def)

lemma zone_writes_mono:
  assumes "zone_writes b A s s'" and "A \<subseteq> B"
  shows "zone_writes b B s s'"
proof -
  obtain cs where cs: "wmi_calls s' = wmi_calls s @ cs"
    and c: "sets_carry cs (\<lambda>z c. z \<in> A \<and> scaled_from b (original_colors s' ! z) c)"
    and o: "\<forall>z. z \<notin> A \<longrightarrow> original_colors s' ! z = original_colors s ! z"
    using assms(1) unfolding zone_writes_def by blast
  have "sets_carry cs (\<lambda>z c. z \<in> B \<and> scaled_from b (original_colors s' ! z) c)"
    using c by (rule sets_carry_mono) (use assms(2) in auto)
  then show ?thesis
    unfolding zone_writes_def using cs o assms(2) by blast
qed

lemma zone_writes_comp:
  assumes "A \<inter> B = {}" and "zone_writes b A s s'" and "zone_writes b B s' s''"
  shows "zone_writes b (A \<union> B) s s''"
proof -
  obtain cs where cs: "wmi_calls s' = wmi_calls s @ cs"
    and c: "sets_carry cs (\<lambda>z c. z \<in> A \<and> scaled_from b (original_colors s' ! z) c)"
    and o: "\<forall>z. z \<notin> A \<longrightarrow> original_colors s' ! z = original_colors s ! z"
    using assms(2) unfolding zone_writes_def by blast
  obtain cs' where cs': "wmi_calls s'' = wmi_calls s' @ cs'"
    and c': "sets_carry cs' (\<lambda>z c. z \<in> B \<and> scaled_from b (original_colors s'' ! z) c)"
    and o': "\<forall>z. z \<notin> B \<longrightarrow> original_colors s'' ! z = original_colors s' ! z"
    using assms(3) unfolding zone_writes_def by blast
  have 1: "sets_carry cs (\<lambda>z c. z \<in> A \<union> B \<and> scaled_from b (original_colors s'' ! z) c)"
    using c
  proof (rule sets_carry_mono)
    fix z c
    assume "z \<in> A \<and> scaled_from b (original_colors s' ! z) c"
    moreover from this have "z \<notin> B" using assms(1) by auto
    ultimately show "z \<in> A \<union> B \<and> scaled_from b (original_colors s'' ! z) c"
      using o' by simp
  qed
  have 2: "sets_carry cs' (\<lambda>z c. z \<in> A \<union> B \<and> scaled_from b (original_colors s'' ! z) c)"
    using c' by (rule sets_carry_mono) auto
  have "wmi_calls s'' = wmi_calls s @ (cs @ cs')"
    using cs cs' by simp
  moreover have "sets_carry (cs @ cs') (\<lambda>z c. z \<in> A \<union> B \<and> scaled_from b (original_colors s'' ! z) c)"
    using 1 2 by simp
  moreover have "\<forall>z. z \<notin> A \<union> B \<longrightarrow> original_colors s'' ! z = original_colors s ! z"
    using o o' by simp
  ultimately show ?thesis
    unfolding zone_writes_def by blast
qed

lemma fold_zones:
  assumes step: "\<And>z s. z \<in> set zs \<Longrightarrow> I s \<Longrightarrow> I (f z s) \<and> R {z} s (f z s)"
    and refl: "\<And>s. R {} s s"
    and comp: "\<And>A B s s' s''. A \<inter> B = {} \<Longrightarrow> R A s s' \<Longrightarrow> R B s' s'' \<Longrightarrow> R (A \<union> B) s s''"
    and "distinct zs" and "I s"
  shows "I (fold f zs s) \<and> R (set zs) s (fold f zs s)"
  using step \<open>distinct zs\<close> \<open>I s\<close>
proof (induction zs arbitrary: s)
  case Nil
  then show ?case by (simp add: refl)
next
  case (Cons z zs)
  have 1: "I (f z s)" "R {z} s (f z s)"
    using Cons.prems(1) [of z s] Cons.prems(3) by simp_all
  have 2: "I (fold f zs (f z s)) \<and> R (set zs) (f z s) (fold f zs (f z s))"
    using Cons.IH [of "f z s"] Cons.prems(1,2) 1 by simp
  have "R ({z} \<union> set zs) s (fold f zs (f z s))"
    using comp [of "{z}" "set zs" s "f z s"] 1 2 Cons.prems(2) by simp
  then show ?case using 2 by simp
qed

lemma for_zones_rel:
  assumes step: "\<And>z s ret s'. z \<in> set zs \<Longrightarrow> I s \<Longrightarrow> body z s = (ret, s') \<Longrightarrow> I s' \<and> R {z} s s'"
    and refl: "\<And>s. R {} s s"
    and comp: "\<And>A B s s' s''. A \<inter> B = {} \<Longrightarrow> R A s s' \<Longrightarrow> R B s' s'' \<Longrightarrow> R (A \<union> B) s s''"
    and mono: "\<And>A B s s'. R A s s' \<Longrightarrow> A \<subseteq> B \<Longrightarrow> R B s s'"
    and "distinct zs" and "I s" and "for_zones body zs s = (ret, s')"
  shows "I s' \<and> R (set zs) s s'"
  using step \<open>distinct zs\<close> \<open>I s\<close> \<open>for_zones body zs s = (ret, s')\<close>
proof (induction zs arbitrary: s)
  case Nil
  then show ?case by (simp add: refl)
next
  case (Cons z zs)
  obtain r1 s1 where b: "body z s = (r1, s1)"
    by (cases "body z s")
  have 1: "I s1" "R {z} s s1"
    using Cons.prems(1) [of z s r1 s1] Cons.prems(3) b by simp_all
  show ?case
  proof (cases "r1 = 0")
    case False
    then have "s' = s1"
      using Cons.prems(4) b by simp
    then show ?thesis
      using 1 mono [of "{z}" s s1 "set (z # zs)"] by simp
  next
    case True
    then have "for_zones body zs s1 = (ret, s')"
      using Cons.prems(4) b by simp
    then have 2: "I s' \<and> R (set zs) s1 s'"
    proof (intro Cons.IH [of s1])
      show "I s'' \<and> R {y} t s''" if "y \<in> set zs" "I t" "body y t = (r, s'')" for y t r s''
        using Cons.prems(1) [of y t r s''] that by simp
      show "distinct zs"
        using Cons.prems(2) by simp
      show "I s1"
        by (rule 1)
    qed
    have "R ({z} \<union> set zs) s s'"
      using comp [of "{z}" "set zs" s s1 s'] 1 2 Cons.prems(2) by simp
    then show ?thesis using 2 by simp
  qed
qed

subsection \<open>One zone of each loop\<close>

lemma zones_laid_out_same:
  assumes "zones_laid_out s" and "same_control s s'"
  shows "zones_laid_out s'"
  using assms by (simp add: zones_laid_out_def same_control_def)

lemma ful_write_step:
  assumes "zones_laid_out s" and "z < 4" and "fourzone_update_led e z HPWMI_WRITE s = (ret, s')"
  shows "same_control s s' \<and> zone_data s' = zone_data s \<and> original_colors s' = original_colors s
    \<and> (\<exists>cs. wmi_calls s' = wmi_calls s @ cs
          \<and> sets_carry cs (\<lambda>z' c. z' = z \<and> c = colors (zone_data s ! z)))"
proof -
  obtain r cs l where "fourzone_update_led e z HPWMI_WRITE s =
             (r, s\<lparr>wmi_calls := wmi_calls s @ cs, klog := klog s @ l\<rparr>)"
    and "sets_carry cs (\<lambda>z' c. z' = z \<and> c = colors (zone_data s ! z))"
    using ful_write_sets [OF zones_laid_out_offset(1) [OF assms(1,2)] assms(2), of e] by blast
  with assms(3) show ?thesis
    by (auto simp add: same_control_def)
qed

lemma ful_read_step:
  assumes "fourzone_update_led e z HPWMI_READ s = (ret, s')"
  shows "same_control s s' \<and> original_colors s' = original_colors s
    \<and> wmi_calls s' = wmi_calls s @ [(3, get_args e)]"
proof -
  obtain r l c where "fourzone_update_led e z HPWMI_READ s =
       (r, s\<lparr>wmi_calls := wmi_calls s @ [(3, get_args e)], klog := klog s @ l,
             zone_data := (zone_data s)[z := (zone_data s ! z)\<lparr>colors := c\<rparr>]\<rparr>)"
    using ful_read_shape [of e z s] by blast
  with assms show ?thesis
    by (auto simp add: same_control_def)
qed

lemma apply_brightness_scaled:
  assumes "0 \<le> global_brightness s" and "global_brightness s \<le> 100"
  shows "scaled_from (global_brightness s) c (apply_brightness_to_color s c)"
  by (simp add: scaled_from_def apply_brightness_to_color_def scaled_channel_uint(1) [OF assms])

lemma scaled_channel_nat:
  assumes "level \<le> 100"
  shows "uint (word_of_nat ((unat (c :: u8) * level) div 100) :: u8) = uint c * int level div 100"
proof -
  have "unat c * level \<le> unat c * 100"
    using assms by simp
  then have "unat c * level div 100 \<le> unat c * 100 div 100"
    by (rule div_le_mono)
  then have le: "unat c * level div 100 \<le> unat c"
    by simp
  have "unat c < 2 ^ LENGTH(8)"
    by (rule unsigned_less)
  with le have "unat c * level div 100 < 2 ^ LENGTH(8)"
    by linarith
  then have "unat (word_of_nat ((unat c * level) div 100) :: u8) = unat c * level div 100"
    by (simp only: unat_of_nat mod_less)
  moreover have "uint (word_of_nat ((unat c * level) div 100) :: u8)
      = int (unat (word_of_nat ((unat c * level) div 100) :: u8))"
    by (rule uint_nat)
  moreover have "int (unat c * level div 100) = uint c * int level div 100"
    by (simp only: zdiv_int of_nat_mult uint_nat [symmetric] of_nat_numeral)
  ultimately show ?thesis
    by simp
qed

lemma painted_zone_colors:
  assumes "z < length zd"
  shows "colors ((zd[z := (zd ! z)\<lparr>colors := c\<rparr>]) ! z) = c"
  using assms by simp

lemma stop_animation_zone_step:
  assumes "zones_laid_out s" and "0 \<le> global_brightness s" and "global_brightness s \<le> 100"
    and "z < 4"
  shows "same_control s (stop_animation_zone e z s)
    \<and> original_colors (stop_animation_zone e z s) = original_colors s
    \<and> zone_writes (global_brightness s) {z} s (stop_animation_zone e z s)"
proof -
  define c where "c = apply_brightness_to_color s (original_colors s ! z)"
  define s2 where "s2 = s\<lparr>zone_data := (zone_data s)[z := (zone_data s ! z)\<lparr>colors := c\<rparr>]\<rparr>"
  have len: "z < length (zone_data s)"
    using zones_laid_out_offset(2) [OF assms(1,4)] assms(4) by simp
  have ab: "apply_brightness_to_color (s\<lparr>zone_data := zd\<rparr>) = apply_brightness_to_color s" for zd
    by (rule ext) (simp add: apply_brightness_to_color_def)
  have unfold: "stop_animation_zone e z s = snd (fourzone_update_led e z HPWMI_WRITE s2)"
    using len by (simp add: stop_animation_zone_def Let_def s2_def c_def ab)
  have sc2: "same_control s s2"
    by (simp add: same_control_def s2_def)
  have lo2: "zones_laid_out s2"
    using assms(1) sc2 by (rule zones_laid_out_same)
  obtain ret s3 where w: "fourzone_update_led e z HPWMI_WRITE s2 = (ret, s3)"
    by (cases "fourzone_update_led e z HPWMI_WRITE s2")
  from ful_write_step [OF lo2 assms(4) w]
  obtain cs where sc3: "same_control s2 s3" and oc: "original_colors s3 = original_colors s2"
    and cs: "wmi_calls s3 = wmi_calls s2 @ cs"
    and carry: "sets_carry cs (\<lambda>z' c. z' = z \<and> c = colors (zone_data s2 ! z))"
    by blast
  have col: "colors (zone_data s2 ! z) = c"
    using len by (simp add: s2_def)
  have oc': "original_colors s3 = original_colors s"
    using oc by (simp add: s2_def)
  have "sets_carry cs (\<lambda>z' c'. z' \<in> {z} \<and> scaled_from (global_brightness s) (original_colors s3 ! z') c')"
    using carry
  proof (rule sets_carry_mono)
    fix z' c'
    assume "z' = z \<and> c' = colors (zone_data s2 ! z)"
    then show "z' \<in> {z} \<and> scaled_from (global_brightness s) (original_colors s3 ! z') c'"
      using apply_brightness_scaled [OF assms(2,3), of "original_colors s ! z"]
      by (simp add: col c_def oc')
  qed
  moreover have "wmi_calls s3 = wmi_calls s @ cs"
    using cs by (simp add: s2_def)
  ultimately have "zone_writes (global_brightness s) {z} s s3"
    unfolding zone_writes_def using oc' by auto
  then show ?thesis
    using same_control_trans [OF sc2 sc3] oc' by (simp add: unfold w)
qed

lemma sets_carry_Cons_get [simp]: "sets_carry ((m, get_args e) # cs) P \<longleftrightarrow> sets_carry cs P"
  by (simp add: sets_carry_def)

lemma update_zone_with_color_step:
  assumes "zones_laid_out s" and "0 \<le> global_brightness s" and "global_brightness s \<le> 100"
    and "z < 4"
  shows "same_control s (update_zone_with_color e cols z s)
    \<and> original_colors (update_zone_with_color e cols z s) = original_colors s
    \<and> (\<exists>cs. wmi_calls (update_zone_with_color e cols z s) = wmi_calls s @ cs
          \<and> sets_carry cs (\<lambda>z' c'. z' = z \<and> scaled_from (global_brightness s) (cols ! z) c'))"
proof -
  define c where "c = apply_brightness_to_color s (cols ! z)"
  define s2 where "s2 = s\<lparr>zone_data := (zone_data s)[z := (zone_data s ! z)\<lparr>colors := c\<rparr>]\<rparr>"
  have len: "z < length (zone_data s)"
    using zones_laid_out_offset(2) [OF assms(1,4)] assms(4) by simp
  have ab: "apply_brightness_to_color (s\<lparr>zone_data := zd\<rparr>) = apply_brightness_to_color s" for zd
    by (rule ext) (simp add: apply_brightness_to_color_def)
  have unfold: "update_zone_with_color e cols z s = snd (fourzone_update_led e z HPWMI_WRITE s2)"
    using len by (simp add: update_zone_with_color_def Let_def s2_def c_def ab)
  have sc2: "same_control s s2"
    by (simp add: same_control_def s2_def)
  have lo2: "zones_laid_out s2"
    using assms(1) sc2 by (rule zones_laid_out_same)
  obtain ret s3 where w: "fourzone_update_led e z HPWMI_WRITE s2 = (ret, s3)"
    by (cases "fourzone_update_led e z HPWMI_WRITE s2")
  from ful_write_step [OF lo2 assms(4) w]
  obtain cs where sc3: "same_control s2 s3" and oc: "original_colors s3 = original_colors s2"
    and cs: "wmi_calls s3 = wmi_calls s2 @ cs"
    and carry: "sets_carry cs (\<lambda>z' c. z' = z \<and> c = colors (zone_data s2 ! z))"
    by blast
  have col: "colors (zone_data s2 ! z) = c"
    using len by (simp add: s2_def)
  have oc': "original_colors s3 = original_colors s"
    using oc by (simp add: s2_def)
  have "sets_carry cs (\<lambda>z' c'. z' = z \<and> scaled_from (global_brightness s) (cols ! z) c')"
    using carry
  proof (rule sets_carry_mono)
    fix z' c'
    assume "z' = z \<and> c' = colors (zone_data s2 ! z)"
    then show "z' = z \<and> scaled_from (global_brightness s) (cols ! z) c'"
      using apply_brightness_scaled [OF assms(2,3), of "cols ! z"]
      by (simp add: col c_def)
  qed
  moreover have "wmi_calls s3 = wmi_calls s @ cs"
    using cs by (simp add: s2_def)
  ultimately show ?thesis
    using same_control_trans [OF sc2 sc3] oc' by (auto simp add: unfold w)
qed

lemma all_set_zone_step:
  assumes "zones_laid_out s" and "0 \<le> global_brightness s" and "global_brightness s \<le> 100"
    and "z < 4" and "all_set_zone e tc z s = (ret, s')"
  shows "same_control s s' \<and> zone_writes (global_brightness s) {z} s s'"
proof -
  define c where "c = (colors (zone_data s ! z))
                 \<lparr>red := word_of_int ((uint (red tc) * global_brightness s) sdiv 100),
                  green := word_of_int ((uint (green tc) * global_brightness s) sdiv 100),
                  blue := word_of_int ((uint (blue tc) * global_brightness s) sdiv 100)\<rparr>"
  define s2 where "s2 = s\<lparr>original_colors := (original_colors s)[z := tc],
                          zone_data := (zone_data s)[z := (zone_data s ! z)\<lparr>colors := c\<rparr>]\<rparr>"
  have len: "z < length (zone_data s)" "z < length (original_colors s)"
    using zones_laid_out_offset(2) [OF assms(1,4)] assms(1,4) by (simp_all add: zones_laid_out_def)
  have w: "fourzone_update_led e z HPWMI_WRITE s2 = (ret, s')"
    using assms(5) by (simp add: all_set_zone_def Let_def s2_def c_def)
  have sc2: "same_control s s2"
    by (simp add: same_control_def s2_def)
  have lo2: "zones_laid_out s2"
    using assms(1) sc2 by (rule zones_laid_out_same)
  from ful_write_step [OF lo2 assms(4) w]
  obtain cs where sc3: "same_control s2 s'" and oc: "original_colors s' = original_colors s2"
    and cs: "wmi_calls s' = wmi_calls s2 @ cs"
    and carry: "sets_carry cs (\<lambda>z' c. z' = z \<and> c = colors (zone_data s2 ! z))"
    by blast
  have col: "colors (zone_data s2 ! z) = c"
    using len by (simp add: s2_def)
  have oc': "original_colors s' = (original_colors s)[z := tc]"
    using oc by (simp add: s2_def)
  have sf: "scaled_from (global_brightness s) tc c"
    by (simp add: scaled_from_def c_def scaled_channel_uint(1) [OF assms(2,3)])
  have "sets_carry cs (\<lambda>z' c'. z' \<in> {z} \<and> scaled_from (global_brightness s) (original_colors s' ! z') c')"
    using carry
  proof (rule sets_carry_mono)
    fix z' c'
    assume "z' = z \<and> c' = colors (zone_data s2 ! z)"
    then show "z' \<in> {z} \<and> scaled_from (global_brightness s) (original_colors s' ! z') c'"
      using sf len by (simp add: col oc')
  qed
  moreover have "wmi_calls s' = wmi_calls s @ cs"
    using cs by (simp add: s2_def)
  ultimately have "zone_writes (global_brightness s) {z} s s'"
    unfolding zone_writes_def using oc' by auto
  then show ?thesis
    using same_control_trans [OF sc2 sc3] by simp
qed

lemma brightness_set_zone_step:
  assumes "zones_laid_out s" and "global_brightness s = int level" and "level \<le> 100"
    and "z < 4" and "brightness_set_zone e level z s = (ret, s')"
  shows "same_control s s' \<and> zone_writes (int level) {z} s s'"
proof -
  obtain r1 s1 where rd: "fourzone_update_led e z HPWMI_READ s = (r1, s1)"
    by (cases "fourzone_update_led e z HPWMI_READ s")
  from ful_read_step [OF rd]
  have sc1: "same_control s s1" and oc1: "original_colors s1 = original_colors s"
    and cs1: "wmi_calls s1 = wmi_calls s @ [(3, get_args e)]"
    by simp_all
  have lo1: "zones_laid_out s1"
    using assms(1) sc1 by (rule zones_laid_out_same)
  have zw1: "zone_writes (int level) {z} s s1"
    unfolding zone_writes_def using oc1 cs1 by simp
  show ?thesis
  proof (cases "r1 = 0")
    case False
    then have "s' = s1"
      using assms(5) rd by (simp add: brightness_set_zone_def)
    then show ?thesis using sc1 zw1 by simp
  next
    case True
    define zc where "zc = colors (zone_data s1 ! z)"
    define c where "c = zc\<lparr>red := word_of_nat ((unat (red zc) * level) div 100),
                      green := word_of_nat ((unat (green zc) * level) div 100),
                      blue := word_of_nat ((unat (blue zc) * level) div 100)\<rparr>"
    define s3 where "s3 = s1\<lparr>original_colors := (original_colors s1)[z := zc],
                          zone_data := (zone_data s1)[z := (zone_data s1 ! z)\<lparr>colors := c\<rparr>]\<rparr>"
    have len: "z < length (zone_data s1)" "z < length (original_colors s1)"
      using zones_laid_out_offset(2) [OF lo1 assms(4)] lo1 assms(4)
      by (simp_all add: zones_laid_out_def)
    have rec: "(original_colors s1 ! z)\<lparr>red := red zc, green := green zc, blue := blue zc\<rparr> = zc"
      by simp
    have w: "fourzone_update_led e z HPWMI_WRITE s3 = (ret, s')"
      using assms(5) True rd unfolding brightness_set_zone_def Let_def s3_def c_def zc_def
      by (simp add: rec [unfolded zc_def])
    have sc3: "same_control s1 s3"
      by (simp add: same_control_def s3_def)
    have lo3: "zones_laid_out s3"
      using lo1 sc3 by (rule zones_laid_out_same)
    from ful_write_step [OF lo3 assms(4) w]
    obtain cs where sc4: "same_control s3 s'" and oc: "original_colors s' = original_colors s3"
      and cs: "wmi_calls s' = wmi_calls s3 @ cs"
      and carry: "sets_carry cs (\<lambda>z' c. z' = z \<and> c = colors (zone_data s3 ! z))"
      by blast
    have col: "colors (zone_data s3 ! z) = c"
      using len by (simp add: s3_def)
    have oc': "original_colors s' = (original_colors s)[z := zc]"
      using oc oc1 by (simp add: s3_def)
    have sf: "scaled_from (int level) zc c"
      by (simp add: scaled_from_def c_def scaled_channel_nat [OF assms(3)])
    have "sets_carry cs (\<lambda>z' c'. z' \<in> {z} \<and> scaled_from (int level) (original_colors s' ! z') c')"
      using carry
    proof (rule sets_carry_mono)
      fix z' c'
      assume "z' = z \<and> c' = colors (zone_data s3 ! z)"
      then show "z' \<in> {z} \<and> scaled_from (int level) (original_colors s' ! z') c'"
        using sf len oc1 by (simp add: col oc')
    qed
    then have "sets_carry ([(3, get_args e)] @ cs)
        (\<lambda>z' c'. z' \<in> {z} \<and> scaled_from (int level) (original_colors s' ! z') c')"
      by simp
    moreover have "wmi_calls s' = wmi_calls s @ ([(3, get_args e)] @ cs)"
      using cs cs1 by (simp add: s3_def)
    moreover have "\<forall>z'. z' \<notin> {z} \<longrightarrow> original_colors s' ! z' = original_colors s ! z'"
      by (simp add: oc')
    ultimately have "zone_writes (int level) {z} s s'"
      unfolding zone_writes_def by blast
    then show ?thesis
      using same_control_trans [OF sc1 same_control_trans [OF sc3 sc4]] by simp
  qed
qed

subsection \<open>The animation state across the endpoints\<close>

lemma ful_write_result:
  assumes "fourzone_update_led e z HPWMI_WRITE s = (ret, s')"
  shows "zone_data s' = zone_data s \<and> original_colors s' = original_colors s
    \<and> global_brightness s' = global_brightness s \<and> current_animation s' = current_animation s
    \<and> animation_speed s' = animation_speed s \<and> animation_active s' = animation_active s
    \<and> timer_pending s' = timer_pending s \<and> state_file s' = state_file s"
proof -
  obtain r cs l where "fourzone_update_led e z HPWMI_WRITE s =
       (r, s\<lparr>wmi_calls := wmi_calls s @ cs, klog := klog s @ l\<rparr>)"
    using ful_write_shape [of e z s] by blast
  with assms show ?thesis by auto
qed

lemma ful_read_result:
  assumes "fourzone_update_led e z HPWMI_READ s = (ret, s')"
  shows "map offset (zone_data s') = map offset (zone_data s)
    \<and> original_colors s' = original_colors s
    \<and> global_brightness s' = global_brightness s \<and> current_animation s' = current_animation s
    \<and> animation_speed s' = animation_speed s \<and> animation_active s' = animation_active s
    \<and> timer_pending s' = timer_pending s \<and> state_file s' = state_file s"
proof -
  obtain r l c where "fourzone_update_led e z HPWMI_READ s =
       (r, s\<lparr>wmi_calls := wmi_calls s @ [(3, get_args e)], klog := klog s @ l,
             zone_data := (zone_data s)[z := (zone_data s ! z)\<lparr>colors := c\<rparr>]\<rparr>)"
    using ful_read_shape [of e z s] by blast
  with assms show ?thesis by auto
qed

lemma ful_write_same:
  "same_control s (snd (fourzone_update_led e z HPWMI_WRITE s))"
  "original_colors (snd (fourzone_update_led e z HPWMI_WRITE s)) = original_colors s"
  using ful_write_result [OF surjective_pairing, of e z s] by (simp_all add: same_control_def)

lemma ful_read_same:
  "same_control s (snd (fourzone_update_led e z HPWMI_READ s))"
  "original_colors (snd (fourzone_update_led e z HPWMI_READ s)) = original_colors s"
  using ful_read_result [OF surjective_pairing, of e z s] by (simp_all add: same_control_def)

lemma same_control_zone_colors:
  "same_control s (s\<lparr>zone_data := (zone_data s)[z := (zone_data s ! z)\<lparr>colors := c\<rparr>]\<rparr>)"
  by (simp add: same_control_def)

lemma same_control_original:
  "same_control s (s\<lparr>original_colors := (original_colors s)[z := c]\<rparr>)"
  by (simp add: same_control_def)

lemma stop_animation_zone_same:
  "same_control s (stop_animation_zone e z s)
   \<and> original_colors (stop_animation_zone e z s) = original_colors s"
proof -
  define s2 where "s2 = s\<lparr>zone_data := (zone_data s)
                   [z := (zone_data s ! z)\<lparr>colors := original_colors s ! z\<rparr>]\<rparr>"
  define s3 where "s3 = s2\<lparr>zone_data := (zone_data s2)
                   [z := (zone_data s2 ! z)
                      \<lparr>colors := apply_brightness_to_color s2 (colors (zone_data s2 ! z))\<rparr>]\<rparr>"
  have u: "stop_animation_zone e z s = snd (fourzone_update_led e z HPWMI_WRITE s3)"
    by (simp add: stop_animation_zone_def Let_def s3_def s2_def)
  have "same_control s s2" "same_control s2 s3"
    unfolding s2_def s3_def by (rule same_control_zone_colors)+
  then have "same_control s s3"
    by (rule same_control_trans)
  moreover have "original_colors s3 = original_colors s"
    by (simp add: s3_def s2_def)
  ultimately show ?thesis
    unfolding u using ful_write_same [where s = s3 and e = e and z = z] same_control_trans by auto
qed

lemma stop_animation_control:
  "same_control (s\<lparr>animation_active := False, timer_pending := False\<rparr>) (stop_animation e s)
   \<and> original_colors (stop_animation e s) = original_colors s"
proof -
  let ?s0 = "s\<lparr>animation_active := False, timer_pending := False\<rparr>"
  have "True \<and> (same_control ?s0 (fold (stop_animation_zone e) [0..<4] ?s0)
      \<and> original_colors (fold (stop_animation_zone e) [0..<4] ?s0) = original_colors ?s0)"
    by (rule fold_zones [where I = "\<lambda>_. True"
          and R = "\<lambda>Z s s'. same_control s s' \<and> original_colors s' = original_colors s"])
      (auto simp add: stop_animation_zone_same intro: same_control_trans)
  then show ?thesis
    by (simp add: stop_animation_def)
qed

lemma all_set_zone_same: "same_control s (snd (all_set_zone e tc z s))"
proof -
  define s1 where "s1 = s\<lparr>original_colors := (original_colors s)[z := tc]\<rparr>"
  define c where "c = (colors (zone_data s1 ! z))
                 \<lparr>red := word_of_int ((uint (red tc) * global_brightness s1) sdiv 100),
                  green := word_of_int ((uint (green tc) * global_brightness s1) sdiv 100),
                  blue := word_of_int ((uint (blue tc) * global_brightness s1) sdiv 100)\<rparr>"
  define s2 where "s2 = s1\<lparr>zone_data := (zone_data s1)[z := (zone_data s1 ! z)\<lparr>colors := c\<rparr>]\<rparr>"
  have u: "all_set_zone e tc z s = fourzone_update_led e z HPWMI_WRITE s2"
    by (simp add: all_set_zone_def Let_def s2_def c_def s1_def)
  have "same_control s s1" "same_control s1 s2"
    unfolding s1_def s2_def by (rule same_control_original, rule same_control_zone_colors)
  then have "same_control s s2"
    by (rule same_control_trans)
  then show ?thesis
    unfolding u using ful_write_same(1) [where s = s2 and e = e and z = z] by (rule same_control_trans)
qed

lemma brightness_set_zone_same: "same_control s (snd (brightness_set_zone e level z s))"
proof -
  obtain r1 s1 where rd: "fourzone_update_led e z HPWMI_READ s = (r1, s1)"
    by (cases "fourzone_update_led e z HPWMI_READ s")
  have sc1: "same_control s s1"
    using ful_read_same(1) [where s = s and e = e and z = z] rd by simp
  show ?thesis
  proof (cases "r1 = 0")
    case False
    then show ?thesis
      using sc1 rd by (simp add: brightness_set_zone_def)
  next
    case True
    define zc where "zc = colors (zone_data s1 ! z)"
    define s2 where "s2 = s1\<lparr>original_colors := (original_colors s1)
                        [z := (original_colors s1 ! z)
                           \<lparr>red := red zc, green := green zc, blue := blue zc\<rparr>]\<rparr>"
    define c where "c = zc\<lparr>red := word_of_nat ((unat (red zc) * level) div 100),
                      green := word_of_nat ((unat (green zc) * level) div 100),
                      blue := word_of_nat ((unat (blue zc) * level) div 100)\<rparr>"
    define s3 where "s3 = s2\<lparr>zone_data := (zone_data s2)[z := (zone_data s2 ! z)\<lparr>colors := c\<rparr>]\<rparr>"
    have u: "brightness_set_zone e level z s = fourzone_update_led e z HPWMI_WRITE s3"
      using True rd by (simp add: brightness_set_zone_def Let_def s3_def c_def s2_def zc_def)
    have "same_control s1 s2" "same_control s2 s3"
      unfolding s2_def s3_def by (rule same_control_original, rule same_control_zone_colors)
    then have "same_control s s3"
      using sc1 same_control_trans by blast
    then show ?thesis
      unfolding u using ful_write_same(1) [where s = s3 and e = e and z = z] by (rule same_control_trans)
  qed
qed

lemma for_zones_same:
  assumes "\<And>z s. same_control s (snd (body z s))" and "distinct zs"
  shows "same_control s (snd (for_zones body zs s))"
proof -
  obtain ret s' where f: "for_zones body zs s = (ret, s')"
    by (cases "for_zones body zs s")
  have "True \<and> same_control s s'"
    using _ _ _ _ assms(2) _ f
  proof (rule for_zones_rel [where I = "\<lambda>_. True" and R = "\<lambda>Z s s'. same_control s s'"])
    show "True \<and> same_control t t'" if "body z t = (r, t')" for z t r t'
      using assms(1) [of t z] that by simp
  qed (auto intro: same_control_trans)
  then show ?thesis by (simp add: f)
qed

lemma save_keeps:
  "zone_data (save_animation_state e s) = zone_data s"
  "original_colors (save_animation_state e s) = original_colors s"
  "global_brightness (save_animation_state e s) = global_brightness s"
  "current_animation (save_animation_state e s) = current_animation s"
  "animation_speed (save_animation_state e s) = animation_speed s"
  "animation_active (save_animation_state e s) = animation_active s"
  "timer_pending (save_animation_state e s) = timer_pending s"
  "wmi_calls (save_animation_state e s) = wmi_calls s"
  by (simp_all add: save_animation_state_def)

lemma stop_animation_fields:
  "animation_active (stop_animation e s) = False"
  "timer_pending (stop_animation e s) = False"
  "current_animation (stop_animation e s) = current_animation s"
  "global_brightness (stop_animation e s) = global_brightness s"
  "animation_speed (stop_animation e s) = animation_speed s"
  "state_file (stop_animation e s) = state_file s"
  "map offset (zone_data (stop_animation e s)) = map offset (zone_data s)"
  "original_colors (stop_animation e s) = original_colors s"
  using stop_animation_control [of s e] by (simp_all add: same_control_def)

lemma all_set_loop_same:
  "same_control s (snd (for_zones (all_set_zone e tc) [0..<4] s))"
  by (rule for_zones_same) (simp_all add: all_set_zone_same)

lemma brightness_loop_same:
  "same_control s (snd (for_zones (brightness_set_zone e level) [0..<4] s))"
  by (rule for_zones_same) (simp_all add: brightness_set_zone_same)

lemma zone_set_control:
  assumes "match_zone s a = Some i" and "fst (parse_rgb e buf (zone_data s ! i)) = 0"
  shows "\<not> animation_active (snd (zone_set e a buf count s))
    \<and> \<not> timer_pending (snd (zone_set e a buf count s))
    \<and> current_animation (snd (zone_set e a buf count s)) = ANIMATION_STATIC"
proof -
  obtain tz where p: "parse_rgb e buf (zone_data s ! i) = (0, tz)"
    using assms(2) by (cases "parse_rgb e buf (zone_data s ! i)") simp
  show ?thesis
    by (auto simp add: zone_set_def assms(1) p Let_def stop_animation_fields save_keeps
        split: prod.splits dest!: ful_write_result)
qed

lemma all_set_control:
  assumes "fst (parse_rgb e buf temp) = 0"
  shows "\<not> animation_active (snd (all_set e temp buf count s))
    \<and> \<not> timer_pending (snd (all_set e temp buf count s))
    \<and> current_animation (snd (all_set e temp buf count s)) = ANIMATION_STATIC"
proof -
  obtain t where p: "parse_rgb e buf temp = (0, t)"
    using assms by (cases "parse_rgb e buf temp") simp
  define s2 where "s2 = (stop_animation e s)\<lparr>current_animation := ANIMATION_STATIC\<rparr>"
  obtain ret s3 where l: "for_zones (all_set_zone e (colors t)) [0..<4] s2 = (ret, s3)"
    by (cases "for_zones (all_set_zone e (colors t)) [0..<4] s2")
  have "same_control s2 s3"
    using all_set_loop_same [of s2 e "colors t"] l by simp
  then have "\<not> animation_active s3 \<and> \<not> timer_pending s3 \<and> current_animation s3 = ANIMATION_STATIC"
    by (simp add: same_control_def s2_def stop_animation_fields)
  then show ?thesis
    using l by (simp add: all_set_def p Let_def s2_def [symmetric] save_keeps)
qed

lemma brightness_set_control:
  "animation_active (snd (brightness_set e buf count s)) = animation_active s
   \<and> timer_pending (snd (brightness_set e buf count s)) = timer_pending s
   \<and> current_animation (snd (brightness_set e buf count s)) = current_animation s"
proof -
  obtain r lv where k: "kstrtoul e buf 10 = (r, lv)"
    by (cases "kstrtoul e buf 10")
  show ?thesis
  proof (cases "r = 0")
    case False
    then show ?thesis by (simp add: brightness_set_def k)
  next
    case True
    define level where "level = (if lv > 100 then 100 else lv)"
    define s1 where "s1 = s\<lparr>global_brightness := int level\<rparr>"
    obtain ret s2 where l: "for_zones (brightness_set_zone e level) [0..<4] s1 = (ret, s2)"
      by (cases "for_zones (brightness_set_zone e level) [0..<4] s1")
    have "same_control s1 s2"
      using brightness_loop_same [of s1 e level] l by simp
    then have "animation_active s2 = animation_active s \<and> timer_pending s2 = timer_pending s
        \<and> current_animation s2 = current_animation s"
      by (simp add: same_control_def s1_def)
    then show ?thesis
      using l True by (simp add: brightness_set_def k Let_def level_def [symmetric]
          s1_def [symmetric] save_keeps)
  qed
qed

lemma brightness_set_level:
  assumes "kstrtoul e buf 10 = (0, lv)"
  shows "global_brightness (snd (brightness_set e buf count s)) = int (if lv > 100 then 100 else lv)"
proof -
  define level where "level = (if lv > 100 then 100 else lv)"
  define s1 where "s1 = s\<lparr>global_brightness := int level\<rparr>"
  obtain ret s2 where l: "for_zones (brightness_set_zone e level) [0..<4] s1 = (ret, s2)"
    by (cases "for_zones (brightness_set_zone e level) [0..<4] s1")
  have "same_control s1 s2"
    using brightness_loop_same [of s1 e level] l by simp
  then have "global_brightness s2 = int level"
    by (simp add: same_control_def s1_def)
  then show ?thesis
    using l by (simp add: brightness_set_def assms Let_def level_def [symmetric]
        s1_def [symmetric] save_keeps)
qed

subsection \<open>What the loops send\<close>

lemma zone_index_less: "z \<in> set [0..<4] \<Longrightarrow> z < 4"
  by simp

lemma stop_animation_writes:
  assumes "zones_laid_out s" and "0 \<le> global_brightness s" and "global_brightness s \<le> 100"
  shows "zone_writes (global_brightness s) (set [0..<4]) s (stop_animation e s)"
proof -
  define b where "b = global_brightness s"
  let ?s0 = "s\<lparr>animation_active := False, timer_pending := False\<rparr>"
  let ?I = "\<lambda>t. zones_laid_out t \<and> global_brightness t = b"
  let ?R = "\<lambda>Z t t'. same_control t t' \<and> zone_writes b Z t t'"
  have "?I (fold (stop_animation_zone e) [0..<4] ?s0)
      \<and> ?R (set [0..<4]) ?s0 (fold (stop_animation_zone e) [0..<4] ?s0)"
  proof (rule fold_zones [where I = ?I and R = ?R])
    fix z t
    assume z: "z \<in> set [0..<4]" and t: "zones_laid_out t \<and> global_brightness t = b"
    have "same_control t (stop_animation_zone e z t)
        \<and> zone_writes (global_brightness t) {z} t (stop_animation_zone e z t)"
      using stop_animation_zone_step [of t z e] z t assms(2,3) by (simp add: b_def)
    then show "?I (stop_animation_zone e z t) \<and> ?R {z} t (stop_animation_zone e z t)"
      using t zones_laid_out_same [of t "stop_animation_zone e z t"]
      by (simp add: same_control_def)
  next
    show "?R {} t t" for t
      by simp
  next
    show "?R (A \<union> B) t t''" if "A \<inter> B = {}" "?R A t t'" "?R B t' t''" for A B t t' t''
      using that same_control_trans [of t t' t''] zone_writes_comp [of A B b t t' t''] by simp
  next
    show "distinct [0..<4]"
      by simp
  next
    show "?I ?s0"
      using assms(1) by (simp add: zones_laid_out_def b_def)
  qed
  then have "zone_writes b (set [0..<4]) ?s0 (stop_animation e s)"
    by (simp add: stop_animation_def)
  then show ?thesis
    by (simp add: zone_writes_def b_def)
qed

lemma update_all_zones_writes:
  assumes "zones_laid_out s" and "0 \<le> global_brightness s" and "global_brightness s \<le> 100"
  shows "\<exists>cs. wmi_calls (update_all_zones_with_colors e cols s) = wmi_calls s @ cs
    \<and> sets_carry cs (\<lambda>z c. scaled_from (global_brightness s) (cols ! z) c)"
proof -
  define b where "b = global_brightness s"
  let ?I = "\<lambda>t. zones_laid_out t \<and> global_brightness t = b"
  let ?R = "\<lambda>(Z :: nat set) t t'. \<exists>cs. wmi_calls t' = wmi_calls t @ cs
    \<and> sets_carry cs (\<lambda>z c. scaled_from b (cols ! z) c)"
  have "?I (fold (update_zone_with_color e cols) [0..<4] s)
      \<and> ?R (set [0..<4]) s (fold (update_zone_with_color e cols) [0..<4] s)"
  proof (rule fold_zones [where I = ?I and R = ?R])
    fix z t
    assume z: "z \<in> set [0..<4]" and t: "zones_laid_out t \<and> global_brightness t = b"
    have "same_control t (update_zone_with_color e cols z t)
        \<and> (\<exists>cs. wmi_calls (update_zone_with_color e cols z t) = wmi_calls t @ cs
          \<and> sets_carry cs (\<lambda>z' c'. z' = z \<and> scaled_from (global_brightness t) (cols ! z) c'))"
      using update_zone_with_color_step [of t z e cols] z t assms(2,3) by (simp add: b_def)
    moreover have "sets_carry cs (\<lambda>z' c'. scaled_from (global_brightness t) (cols ! z') c')"
      if "sets_carry cs (\<lambda>z' c'. z' = z \<and> scaled_from (global_brightness t) (cols ! z) c')" for cs
      using that by (rule sets_carry_mono) simp
    ultimately have "same_control t (update_zone_with_color e cols z t)
        \<and> (\<exists>cs. wmi_calls (update_zone_with_color e cols z t) = wmi_calls t @ cs
          \<and> sets_carry cs (\<lambda>z' c'. scaled_from (global_brightness t) (cols ! z') c'))"
      by blast
    then show "?I (update_zone_with_color e cols z t) \<and> ?R {z} t (update_zone_with_color e cols z t)"
      using t zones_laid_out_same [of t "update_zone_with_color e cols z t"]
      by (simp add: same_control_def)
  next
    show "?R {} t t" for t
      by simp
  next
    show "?R (A \<union> B) t t''" if r1: "?R A t t'" and r2: "?R B t' t''" for A B t t' t''
    proof -
      obtain cs cs' where "wmi_calls t' = wmi_calls t @ cs" "wmi_calls t'' = wmi_calls t' @ cs'"
        "sets_carry cs (\<lambda>z c. scaled_from b (cols ! z) c)"
        "sets_carry cs' (\<lambda>z c. scaled_from b (cols ! z) c)"
        using r1 r2 by blast
      then have "wmi_calls t'' = wmi_calls t @ (cs @ cs')
          \<and> sets_carry (cs @ cs') (\<lambda>z c. scaled_from b (cols ! z) c)"
        by simp
      then show ?thesis by blast
    qed
  next
    show "distinct [0..<4]"
      by simp
  next
    show "?I s"
      using assms(1) by (simp add: b_def)
  qed
  then show ?thesis
    by (simp add: update_all_zones_with_colors_def b_def)
qed

lemma all_set_loop_writes:
  assumes "zones_laid_out s" and "0 \<le> global_brightness s" and "global_brightness s \<le> 100"
    and "for_zones (all_set_zone e tc) [0..<4] s = (ret, s')"
  shows "zone_writes (global_brightness s) (set [0..<4]) s s'"
proof -
  define b where "b = global_brightness s"
  let ?I = "\<lambda>t. zones_laid_out t \<and> global_brightness t = b"
  let ?R = "\<lambda>Z t t'. same_control t t' \<and> zone_writes b Z t t'"
  have "?I s' \<and> ?R (set [0..<4]) s s'"
    using _ _ _ _ _ _ assms(4)
  proof (rule for_zones_rel [where I = ?I and R = ?R])
    fix z t r t'
    assume z: "z \<in> set [0..<4]" and t: "zones_laid_out t \<and> global_brightness t = b"
      and st: "all_set_zone e tc z t = (r, t')"
    have "same_control t t' \<and> zone_writes (global_brightness t) {z} t t'"
      using all_set_zone_step [of t z e tc r t'] z t st assms(2,3) by (simp add: b_def)
    then show "?I t' \<and> ?R {z} t t'"
      using t zones_laid_out_same [of t t'] by (simp add: same_control_def)
  next
    show "?R {} t t" for t
      by simp
  next
    show "?R (A \<union> B) t t''" if "A \<inter> B = {}" "?R A t t'" "?R B t' t''" for A B t t' t''
      using that same_control_trans [of t t' t''] zone_writes_comp [of A B b t t' t''] by simp
  next
    show "?R B t t'" if "?R A t t'" "A \<subseteq> B" for A B t t'
      using that zone_writes_mono [of b A t t' B] by simp
  next
    show "distinct [0..<4]"
      by simp
  next
    show "?I s"
      using assms(1) by (simp add: b_def)
  qed
  then show ?thesis
    by (simp add: b_def)
qed

lemma brightness_loop_writes:
  assumes "zones_laid_out s" and "global_brightness s = int level" and "level \<le> 100"
    and "for_zones (brightness_set_zone e level) [0..<4] s = (ret, s')"
  shows "zone_writes (int level) (set [0..<4]) s s'"
proof -
  let ?I = "\<lambda>t. zones_laid_out t \<and> global_brightness t = int level"
  let ?R = "\<lambda>Z t t'. same_control t t' \<and> zone_writes (int level) Z t t'"
  have "?I s' \<and> ?R (set [0..<4]) s s'"
    using _ _ _ _ _ _ assms(4)
  proof (rule for_zones_rel [where I = ?I and R = ?R])
    fix z t r t'
    assume z: "z \<in> set [0..<4]" and t: "zones_laid_out t \<and> global_brightness t = int level"
      and st: "brightness_set_zone e level z t = (r, t')"
    have "same_control t t' \<and> zone_writes (int level) {z} t t'"
      using brightness_set_zone_step [of t level z e r t'] z t st assms(3) by simp
    then show "?I t' \<and> ?R {z} t t'"
      using t zones_laid_out_same [of t t'] by (simp add: same_control_def)
  next
    show "?R {} t t" for t
      by simp
  next
    show "?R (A \<union> B) t t''" if "A \<inter> B = {}" "?R A t t'" "?R B t' t''" for A B t t' t''
      using that same_control_trans [of t t' t''] zone_writes_comp [of A B "int level" t t' t'']
      by simp
  next
    show "?R B t t'" if "?R A t t'" "A \<subseteq> B" for A B t t'
      using that zone_writes_mono [of "int level" A t t' B] by simp
  next
    show "distinct [0..<4]"
      by simp
  next
    show "?I s"
      using assms(1,2) by simp
  qed
  then show ?thesis
    by simp
qed

subsection \<open>What the endpoints send\<close>

lemma parse_rgb_offset: "offset (snd (parse_rgb e buf zone)) = offset zone"
  by (simp add: parse_rgb_def split: prod.splits)

lemma match_zone_less: "match_zone s a = Some i \<Longrightarrow> i < 4"
  by (auto simp add: match_zone_def find_Some_iff)

lemma zone_writes_calls:
  assumes "zone_writes b Z s s'"
  obtains cs where "wmi_calls s' = wmi_calls s @ cs"
    and "sets_carry cs (\<lambda>z c. scaled_from b (original_colors s' ! z) c)"
proof -
  obtain cs where cs: "wmi_calls s' = wmi_calls s @ cs"
    and c: "sets_carry cs (\<lambda>z c. z \<in> Z \<and> scaled_from b (original_colors s' ! z) c)"
    using assms unfolding zone_writes_def by blast
  have "sets_carry cs (\<lambda>z c. scaled_from b (original_colors s' ! z) c)"
    using c by (rule sets_carry_mono) simp
  with cs show ?thesis by (rule that)
qed

lemma zone_set_writes:
  assumes "zones_laid_out s" and "0 \<le> global_brightness s" and "global_brightness s \<le> 100"
  shows "\<exists>cs. wmi_calls (snd (zone_set e a buf count s)) = wmi_calls s @ cs
    \<and> sets_carry cs (\<lambda>z c. scaled_from (global_brightness s) (original_colors s ! z) c
          \<or> scaled_from (global_brightness s)
               (original_colors (snd (zone_set e a buf count s)) ! z) c)"
proof (cases "match_zone s a")
  case None
  then have "wmi_calls (snd (zone_set e a buf count s)) = wmi_calls s @ []"
    by (simp add: zone_set_def)
  then show ?thesis
    using sets_carry_Nil by blast
next
  case (Some i)
  define b where "b = global_brightness s"
  obtain ret tz where p: "parse_rgb e buf (zone_data s ! i) = (ret, tz)"
    by (cases "parse_rgb e buf (zone_data s ! i)")
  define s1 where "s1 = s\<lparr>zone_data := (zone_data s)[i := tz]\<rparr>"
  show ?thesis
  proof (cases "ret = 0")
    case False
    then have "wmi_calls (snd (zone_set e a buf count s)) = wmi_calls s @ []"
      by (simp add: zone_set_def Some p)
    then show ?thesis
      using sets_carry_Nil by blast
  next
    case True
    have i: "i < 4"
      using Some by (rule match_zone_less)
    have "offset tz = offset (zone_data s ! i)"
      using parse_rgb_offset [of e buf "zone_data s ! i"] p by simp
    then have "map offset (zone_data s1) = map offset (zone_data s)"
      by (simp add: s1_def map_offset_update)
    then have lo1: "zones_laid_out s1"
      using assms(1) by (simp add: zones_laid_out_def s1_def)
    define s2 where "s2 = stop_animation e s1"
    have zw: "zone_writes b (set [0..<4]) s1 s2"
      unfolding s2_def b_def using stop_animation_writes [OF lo1, of e] assms(2,3)
      by (simp add: s1_def)
    have f2: "global_brightness s2 = b" "original_colors s2 = original_colors s"
      "map offset (zone_data s2) = map offset (zone_data s1)"
      by (simp_all add: s2_def stop_animation_fields s1_def b_def)
    define tc where "tc = colors (zone_data s2 ! i)"
    define tc' where "tc' = tc\<lparr>red := word_of_int ((uint (red tc) * b) sdiv 100),
                           green := word_of_int ((uint (green tc) * b) sdiv 100),
                           blue := word_of_int ((uint (blue tc) * b) sdiv 100)\<rparr>"
    define s5 where "s5 = s2\<lparr>current_animation := ANIMATION_STATIC,
        original_colors := (original_colors s2)[i := tc],
        zone_data := (zone_data s2)[i := (zone_data s2 ! i)\<lparr>colors := tc'\<rparr>]\<rparr>"
    have rec: "(original_colors s2 ! i)\<lparr>red := red tc, green := green tc, blue := blue tc\<rparr> = tc"
      by simp
    have u: "zone_set e a buf count s =
        (case fourzone_update_led e i HPWMI_WRITE s5 of
           (ret', s6) \<Rightarrow> if ret' \<noteq> 0 then (ret', s6) else (count, save_animation_state e s6))"
      using True
      by (simp add: zone_set_def Some p Let_def s1_def [symmetric] s2_def [symmetric]
          tc_def [symmetric] rec f2(1) tc'_def [symmetric] s5_def)
    obtain ret' s6 where w: "fourzone_update_led e i HPWMI_WRITE s5 = (ret', s6)"
      by (cases "fourzone_update_led e i HPWMI_WRITE s5")
    have oc1: "original_colors s1 = original_colors s"
      by (simp add: s1_def)
    have lo5: "zones_laid_out s5"
      using lo1 f2 oc1 by (simp add: zones_laid_out_def s5_def)
    from ful_write_step [OF lo5 i w]
    obtain cs2 where oc6: "original_colors s6 = original_colors s5"
      and cs2: "wmi_calls s6 = wmi_calls s5 @ cs2"
      and carry: "sets_carry cs2 (\<lambda>z' c. z' = i \<and> c = colors (zone_data s5 ! i))"
      by blast
    have len: "i < length (zone_data s2)" "i < length (original_colors s)"
      using zones_laid_out_offset(2) [OF lo5 i] lo5 i f2 by (simp_all add: s5_def zones_laid_out_def)
    let ?s' = "snd (zone_set e a buf count s)"
    have "original_colors ?s' = original_colors s6"
      by (simp add: u w save_keeps)
    moreover have "original_colors s5 = (original_colors s)[i := tc]"
      by (simp add: s5_def f2)
    ultimately have oc': "original_colors ?s' = (original_colors s)[i := tc]"
      using oc6 by simp
    have calls': "wmi_calls ?s' = wmi_calls s6"
      by (simp add: u w save_keeps)
    obtain cs1 where cs1: "wmi_calls s2 = wmi_calls s1 @ cs1"
      and carry1: "sets_carry cs1 (\<lambda>z c. scaled_from b (original_colors s2 ! z) c)"
      using zw by (rule zone_writes_calls)
    have sf: "scaled_from b tc tc'"
      by (simp add: scaled_from_def tc'_def scaled_channel_uint(1) [OF assms(2,3), folded b_def])
    have 1: "sets_carry cs1 (\<lambda>z c. scaled_from b (original_colors s ! z) c
          \<or> scaled_from b (original_colors ?s' ! z) c)"
      using carry1 by (rule sets_carry_mono) (simp add: f2)
    have 2: "sets_carry cs2 (\<lambda>z c. scaled_from b (original_colors s ! z) c
          \<or> scaled_from b (original_colors ?s' ! z) c)"
      using carry
    proof (rule sets_carry_mono)
      fix z' c
      assume "z' = i \<and> c = colors (zone_data s5 ! i)"
      then show "scaled_from b (original_colors s ! z') c
          \<or> scaled_from b (original_colors ?s' ! z') c"
        using sf len by (simp add: oc' s5_def)
    qed
    have "wmi_calls ?s' = wmi_calls s @ (cs1 @ cs2)"
      using calls' cs2 cs1 by (simp add: s5_def s1_def)
    moreover have "sets_carry (cs1 @ cs2) (\<lambda>z c. scaled_from b (original_colors s ! z) c
          \<or> scaled_from b (original_colors ?s' ! z) c)"
      using 1 2 by simp
    ultimately show ?thesis
      unfolding b_def by blast
  qed
qed


lemma all_set_writes:
  assumes "zones_laid_out s" and "0 \<le> global_brightness s" and "global_brightness s \<le> 100"
  shows "\<exists>cs. wmi_calls (snd (all_set e temp buf count s)) = wmi_calls s @ cs
    \<and> sets_carry cs (\<lambda>z c. scaled_from (global_brightness s) (original_colors s ! z) c
          \<or> scaled_from (global_brightness s)
               (original_colors (snd (all_set e temp buf count s)) ! z) c)"
proof -
  define b where "b = global_brightness s"
  obtain ret t where p: "parse_rgb e buf temp = (ret, t)"
    by (cases "parse_rgb e buf temp")
  show ?thesis
  proof (cases "ret = 0")
    case False
    then have "wmi_calls (snd (all_set e temp buf count s)) = wmi_calls s @ []"
      by (simp add: all_set_def p)
    then show ?thesis
      using sets_carry_Nil by blast
  next
    case True
    define s1 where "s1 = stop_animation e s"
    define s2 where "s2 = s1\<lparr>current_animation := ANIMATION_STATIC\<rparr>"
    have zw1: "zone_writes b (set [0..<4]) s s1"
      unfolding s1_def b_def using assms by (rule stop_animation_writes)
    have f1: "global_brightness s1 = b" "original_colors s1 = original_colors s"
      "map offset (zone_data s1) = map offset (zone_data s)"
      by (simp_all add: s1_def stop_animation_fields b_def)
    have lo2: "zones_laid_out s2"
      using assms(1) f1 by (simp add: zones_laid_out_def s2_def)
    obtain ret' s3 where l: "for_zones (all_set_zone e (colors t)) [0..<4] s2 = (ret', s3)"
      by (cases "for_zones (all_set_zone e (colors t)) [0..<4] s2")
    have "zone_writes (global_brightness s2) (set [0..<4]) s2 s3"
      using lo2 _ _ l by (rule all_set_loop_writes) (use assms(2,3) f1 in \<open>simp_all add: s2_def b_def\<close>)
    then have zw2: "zone_writes b (set [0..<4]) s2 s3"
      by (simp add: s2_def f1)
    let ?s' = "snd (all_set e temp buf count s)"
    have u: "all_set e temp buf count s
        = (if ret' \<noteq> 0 then (ret', s3) else (count, save_animation_state e s3))"
      using True l by (simp add: all_set_def p Let_def s1_def [symmetric] s2_def [symmetric])
    have oc': "original_colors ?s' = original_colors s3" and calls': "wmi_calls ?s' = wmi_calls s3"
      by (simp_all add: u save_keeps)
    obtain cs1 where cs1: "wmi_calls s1 = wmi_calls s @ cs1"
      and carry1: "sets_carry cs1 (\<lambda>z c. scaled_from b (original_colors s1 ! z) c)"
      using zw1 by (rule zone_writes_calls)
    obtain cs2 where cs2: "wmi_calls s3 = wmi_calls s2 @ cs2"
      and carry2: "sets_carry cs2 (\<lambda>z c. scaled_from b (original_colors s3 ! z) c)"
      using zw2 by (rule zone_writes_calls)
    have 1: "sets_carry cs1 (\<lambda>z c. scaled_from b (original_colors s ! z) c
          \<or> scaled_from b (original_colors ?s' ! z) c)"
      using carry1 by (rule sets_carry_mono) (simp add: f1)
    have 2: "sets_carry cs2 (\<lambda>z c. scaled_from b (original_colors s ! z) c
          \<or> scaled_from b (original_colors ?s' ! z) c)"
      using carry2 by (rule sets_carry_mono) (simp add: oc')
    have "wmi_calls ?s' = wmi_calls s @ (cs1 @ cs2)"
      using calls' cs2 cs1 by (simp add: s2_def)
    moreover have "sets_carry (cs1 @ cs2) (\<lambda>z c. scaled_from b (original_colors s ! z) c
          \<or> scaled_from b (original_colors ?s' ! z) c)"
      using 1 2 by simp
    ultimately show ?thesis
      unfolding b_def by blast
  qed
qed

lemma brightness_set_writes:
  assumes "zones_laid_out s"
  shows "\<exists>cs. wmi_calls (snd (brightness_set e buf count s)) = wmi_calls s @ cs
    \<and> sets_carry cs (\<lambda>z c. scaled_from (global_brightness (snd (brightness_set e buf count s)))
               (original_colors (snd (brightness_set e buf count s)) ! z) c)"
proof -
  obtain r lv where k: "kstrtoul e buf 10 = (r, lv)"
    by (cases "kstrtoul e buf 10")
  show ?thesis
  proof (cases "r = 0")
    case False
    then have "wmi_calls (snd (brightness_set e buf count s)) = wmi_calls s @ []"
      by (simp add: brightness_set_def k)
    then show ?thesis
      using sets_carry_Nil by blast
  next
    case True
    define level where "level = (if lv > 100 then 100 else lv)"
    define s1 where "s1 = s\<lparr>global_brightness := int level\<rparr>"
    have lv: "level \<le> 100"
      by (simp add: level_def)
    have lo1: "zones_laid_out s1"
      using assms by (simp add: zones_laid_out_def s1_def)
    obtain ret s2 where l: "for_zones (brightness_set_zone e level) [0..<4] s1 = (ret, s2)"
      by (cases "for_zones (brightness_set_zone e level) [0..<4] s1")
    have zw: "zone_writes (int level) (set [0..<4]) s1 s2"
      using lo1 _ lv l by (rule brightness_loop_writes) (simp add: s1_def)
    let ?s' = "snd (brightness_set e buf count s)"
    have u: "brightness_set e buf count s
        = (if ret \<noteq> 0 then (ret, s2) else (count, save_animation_state e s2))"
      using True l by (simp add: brightness_set_def k Let_def level_def [symmetric]
          s1_def [symmetric])
    have oc': "original_colors ?s' = original_colors s2" and calls': "wmi_calls ?s' = wmi_calls s2"
      by (simp_all add: u save_keeps)
    have b': "global_brightness ?s' = int level"
      using brightness_set_level [of e buf lv count s] k True by (simp add: level_def)
    obtain cs where cs: "wmi_calls s2 = wmi_calls s1 @ cs"
      and carry: "sets_carry cs (\<lambda>z c. scaled_from (int level) (original_colors s2 ! z) c)"
      using zw by (rule zone_writes_calls)
    have "wmi_calls ?s' = wmi_calls s @ cs"
      using calls' cs by (simp add: s1_def)
    moreover have "sets_carry cs (\<lambda>z c. scaled_from (global_brightness ?s')
        (original_colors ?s' ! z) c)"
      using carry by (simp add: b' oc')
    ultimately show ?thesis
      by blast
  qed
qed

subsection \<open>A keyboard that keeps the last frame\<close>

lemma color_update_all:
  "(c :: color_platform)\<lparr>red := r, green := g, blue := b\<rparr> = \<lparr>blue = b, green = g, red = r\<rparr>"
  by (cases c) simp

lemma color_update_from:
  "(c :: color_platform)\<lparr>red := red d, green := green d, blue := blue d\<rparr> = (d :: color_platform)"
  by (cases c, cases d) simp

lemma hw_frame_append:
  "hw_frame f0 (cs @ cs') = hw_frame (hw_frame f0 cs) cs'"
  by (simp add: hw_frame_def)

lemma hw_frame_get [simp]: "hw_frame f [(m, get_args e)] = f"
  by (simp add: hw_frame_def)

lemma hw_frame_get_set [simp]:
  "hw_frame f [(m, get_args e), (m', set_args e' zone pl)] = data (set_args e' zone pl)"
  by (simp add: hw_frame_def)

lemma echo_write:
  assumes "wmi_evaluate_method e = echo_firmware f0"
  shows "fourzone_update_led e z HPWMI_WRITE s =
    (0, s\<lparr>wmi_calls := wmi_calls s @
            [(3, get_args e), (3, set_args e (zone_data s ! z) (hw_frame f0 (wmi_calls s)))]\<rparr>)"
proof -
  let ?pl = "hw_frame f0 (wmi_calls s)"
  have g: "get_payload e s = Some ?pl"
    using assms by (rule echo_get_payload)
  let ?s1 = "s\<lparr>wmi_calls := wmi_calls s @ [(3, get_args e)]\<rparr>"
  have q: "hp_wmi_perform_query e HPWMI_FOURZONE_COLOR_SET HPWMI_FOURZONE buf 128 128 ?s1
      = (0, padded_frame [] @ drop 128 buf,
         ?s1\<lparr>wmi_calls := wmi_calls ?s1
            @ [(3, query_args HPWMI_FOURZONE_COLOR_SET HPWMI_FOURZONE buf 128)]\<rparr>)" for buf
    by (simp add: query_128 assms echo_firmware_def)
  show ?thesis
    by (simp add: fourzone_update_led_def get_query_ok [OF g] Let_def q set_args_def)
qed

lemma ful_read_zone_color:
  assumes "get_payload e s = Some pl" and "z < 4"
    and "unat (offset (zone_data s ! z)) = 25 + 3 * z"
  shows "fourzone_update_led e z HPWMI_READ s =
    (0, s\<lparr>wmi_calls := wmi_calls s @ [(3, get_args e)],
          zone_data := (zone_data s)[z := (zone_data s ! z)\<lparr>colors := zone_color pl z\<rparr>]\<rparr>)"
proof -
  have rd: "(padded_frame pl @ drop 128 (stack_bytes e)) ! (25 + 3 * z + k)
      = frame_byte pl (25 + 3 * z + k)" if "k < 3" for k
    using that assms(2) by (simp add: nth_append nth_padded_frame)
  show ?thesis
    using rd [of 0] rd [of 1] rd [of 2]
    by (simp add: ful_read_ok [OF assms(1)] assms(3) zone_color_def color_update_all)
qed

lemma echo_read:
  assumes "wmi_evaluate_method e = echo_firmware f0" and "z < 4"
    and "unat (offset (zone_data s ! z)) = 25 + 3 * z"
  shows "fourzone_update_led e z HPWMI_READ s =
    (0, s\<lparr>wmi_calls := wmi_calls s @ [(3, get_args e)],
          zone_data := (zone_data s)
            [z := (zone_data s ! z)\<lparr>colors := zone_color (hw_frame f0 (wmi_calls s)) z\<rparr>]\<rparr>)"
  using echo_get_payload [OF assms(1)] assms(2,3) by (rule ful_read_zone_color)

lemma brightness_set_zone_original:
  assumes "get_payload e s = Some pl" and "zones_laid_out s" and "z < 4"
  shows "original_colors (snd (brightness_set_zone e level z s)) ! z = zone_color pl z"
proof -
  have off: "unat (offset (zone_data s ! z)) = 25 + 3 * z"
    and len: "z < length (zone_data s)" "z < length (original_colors s)"
    using zones_laid_out_offset [OF assms(2,3)] assms(2,3) by (simp_all add: zones_laid_out_def)
  define zc where "zc = zone_color pl z"
  define s1 where "s1 = s\<lparr>wmi_calls := wmi_calls s @ [(3, get_args e)],
          zone_data := (zone_data s)[z := (zone_data s ! z)\<lparr>colors := zc\<rparr>]\<rparr>"
  have rd: "fourzone_update_led e z HPWMI_READ s = (0, s1)"
    using ful_read_zone_color [OF assms(1,3) off] by (simp add: s1_def zc_def)
  have c1: "colors (zone_data s1 ! z) = zc"
    using len by (simp add: s1_def)
  have oc1: "original_colors s1 = original_colors s"
    by (simp add: s1_def)
  define s3 where "s3 = s1\<lparr>original_colors := (original_colors s)[z := zc],
      zone_data := (zone_data s1)[z := (zone_data s1 ! z)\<lparr>colors := dimmed level zc\<rparr>]\<rparr>"
  have dm: "zc\<lparr>red := word_of_nat ((unat (red zc) * level) div 100),
               green := word_of_nat ((unat (green zc) * level) div 100),
               blue := word_of_nat ((unat (blue zc) * level) div 100)\<rparr> = dimmed level zc"
    by (simp add: dimmed_def)
  have u: "brightness_set_zone e level z s = fourzone_update_led e z HPWMI_WRITE s3"
    unfolding brightness_set_zone_def rd Let_def
    by (simp add: c1 color_update_from dm oc1 s3_def)
  have "original_colors (snd (brightness_set_zone e level z s)) = original_colors s3"
    unfolding u by (rule ful_write_same(2))
  then show ?thesis
    using len by (simp add: s3_def zc_def)
qed

lemma dimmed_scaled:
  assumes "level \<le> 100"
  shows "scaled_from (int level) c (dimmed level c)"
  by (simp add: scaled_from_def dimmed_def scaled_channel_nat [OF assms])

lemma echo_brightness_zone:
  assumes "wmi_evaluate_method e = echo_firmware f0" and "zones_laid_out s" and "z < 4"
  shows "\<exists>s'. brightness_set_zone e level z s = (0, s')
    \<and> same_control s s'
    \<and> original_colors s' = (original_colors s)[z := zone_color (hw_frame f0 (wmi_calls s)) z]
    \<and> (\<forall>z'<4. zone_color (hw_frame f0 (wmi_calls s')) z'
          = (if z' = z then dimmed level (zone_color (hw_frame f0 (wmi_calls s)) z)
             else zone_color (hw_frame f0 (wmi_calls s)) z'))"
proof -
  define F where "F = hw_frame f0 (wmi_calls s)"
  define zc where "zc = zone_color F z"
  have off: "unat (offset (zone_data s ! z)) = 25 + 3 * z"
    and len: "z < length (zone_data s)"
    using zones_laid_out_offset [OF assms(2,3)] assms(3) by simp_all
  define s1 where "s1 = s\<lparr>wmi_calls := wmi_calls s @ [(3, get_args e)],
          zone_data := (zone_data s)[z := (zone_data s ! z)\<lparr>colors := zc\<rparr>]\<rparr>"
  have rd: "fourzone_update_led e z HPWMI_READ s = (0, s1)"
    using echo_read [OF assms(1,3) off] by (simp add: s1_def zc_def F_def)
  define s3 where "s3 = s1\<lparr>original_colors := (original_colors s)[z := zc],
      zone_data := (zone_data s1)[z := (zone_data s1 ! z)\<lparr>colors := dimmed level zc\<rparr>]\<rparr>"
  have c1: "colors (zone_data s1 ! z) = zc"
    using len by (simp add: s1_def)
  have dm: "zc\<lparr>red := word_of_nat ((unat (red zc) * level) div 100),
               green := word_of_nat ((unat (green zc) * level) div 100),
               blue := word_of_nat ((unat (blue zc) * level) div 100)\<rparr> = dimmed level zc"
    by (simp add: dimmed_def)
  have oc1: "original_colors s1 = original_colors s"
    by (simp add: s1_def)
  have u: "brightness_set_zone e level z s = fourzone_update_led e z HPWMI_WRITE s3"
    unfolding brightness_set_zone_def rd Let_def
    by (simp add: c1 color_update_from dm oc1 s3_def)
  define zone3 where "zone3 = zone_data s3 ! z"
  define s4 where "s4 = s3\<lparr>wmi_calls := wmi_calls s3 @
            [(3, get_args e), (3, set_args e zone3 (hw_frame f0 (wmi_calls s3)))]\<rparr>"
  have w: "fourzone_update_led e z HPWMI_WRITE s3 = (0, s4)"
    using echo_write [OF assms(1), of z s3] by (simp add: s4_def zone3_def)
  have "same_control s s1"
    by (simp add: same_control_def s1_def)
  moreover have "same_control s1 s3"
    by (simp add: same_control_def s3_def oc1)
  moreover have "same_control s3 s4"
    by (simp add: same_control_def s4_def)
  ultimately have sc: "same_control s s4"
    using same_control_trans by blast
  have oc4: "original_colors s4 = (original_colors s)[z := zc]"
    by (simp add: s4_def s3_def)
  have f3: "hw_frame f0 (wmi_calls s3) = F"
    by (simp add: s3_def s1_def hw_frame_append F_def)
  have f4: "hw_frame f0 (wmi_calls s4) = data (set_args e zone3 F)"
    by (simp add: s4_def hw_frame_append f3)
  have z3: "unat (offset zone3) = 25 + 3 * z" "colors zone3 = dimmed level zc"
    using len off by (simp_all add: zone3_def s3_def s1_def)
  have "zone_color (hw_frame f0 (wmi_calls s4)) z'
      = (if z' = z then dimmed level zc else zone_color F z')" if "z' < 4" for z'
    using zone_color_set_args [OF assms(3) z3(1) that, of e F] by (simp add: f4 z3(2))
  then show ?thesis
    using u w sc oc4 unfolding zc_def F_def by auto
qed


lemma echo_brightness_loop:
  assumes "wmi_evaluate_method e = echo_firmware f0"
  shows "zones_laid_out s \<Longrightarrow> distinct zs \<Longrightarrow> \<forall>z\<in>set zs. z < 4 \<Longrightarrow>
    \<exists>s'. for_zones (brightness_set_zone e level) zs s = (0, s')
      \<and> same_control s s'
      \<and> (\<forall>z<4. original_colors s' ! z
            = (if z \<in> set zs then zone_color (hw_frame f0 (wmi_calls s)) z
               else original_colors s ! z))
      \<and> (\<forall>z<4. zone_color (hw_frame f0 (wmi_calls s')) z
            = (if z \<in> set zs then dimmed level (zone_color (hw_frame f0 (wmi_calls s)) z)
               else zone_color (hw_frame f0 (wmi_calls s)) z))"
proof (induction zs arbitrary: s)
  case Nil
  then show ?case by simp
next
  case (Cons z zs)
  have z: "z < 4" "z \<notin> set zs"
    using Cons.prems by simp_all
  have len: "z < length (original_colors s)"
    using Cons.prems(1) z by (simp add: zones_laid_out_def)
  obtain s1 where b: "brightness_set_zone e level z s = (0, s1)"
    and sc1: "same_control s s1"
    and oc1: "original_colors s1 = (original_colors s)[z := zone_color (hw_frame f0 (wmi_calls s)) z]"
    and hw1: "\<forall>z'<4. zone_color (hw_frame f0 (wmi_calls s1)) z'
          = (if z' = z then dimmed level (zone_color (hw_frame f0 (wmi_calls s)) z)
             else zone_color (hw_frame f0 (wmi_calls s)) z')"
    using echo_brightness_zone [OF assms Cons.prems(1) z(1), of level] by blast
  have lo1: "zones_laid_out s1"
    using Cons.prems(1) sc1 by (rule zones_laid_out_same)
  obtain s' where l: "for_zones (brightness_set_zone e level) zs s1 = (0, s')"
    and sc: "same_control s1 s'"
    and oc: "\<forall>z'<4. original_colors s' ! z'
            = (if z' \<in> set zs then zone_color (hw_frame f0 (wmi_calls s1)) z'
               else original_colors s1 ! z')"
    and hw: "\<forall>z'<4. zone_color (hw_frame f0 (wmi_calls s')) z'
            = (if z' \<in> set zs then dimmed level (zone_color (hw_frame f0 (wmi_calls s1)) z')
               else zone_color (hw_frame f0 (wmi_calls s1)) z')"
    using Cons.IH [OF lo1] Cons.prems(2,3) by auto
  have "for_zones (brightness_set_zone e level) (z # zs) s = (0, s')"
    by (simp add: b l)
  moreover have "same_control s s'"
    using sc1 sc by (rule same_control_trans)
  moreover have "\<forall>z'<4. original_colors s' ! z'
            = (if z' \<in> set (z # zs) then zone_color (hw_frame f0 (wmi_calls s)) z'
               else original_colors s ! z')"
    using oc hw1 z len by (auto simp add: oc1)
  moreover have "\<forall>z'<4. zone_color (hw_frame f0 (wmi_calls s')) z'
            = (if z' \<in> set (z # zs) then dimmed level (zone_color (hw_frame f0 (wmi_calls s)) z')
               else zone_color (hw_frame f0 (wmi_calls s)) z')"
    using hw hw1 z by auto
  ultimately show ?case by blast
qed

lemma echo_brightness_set:
  assumes "wmi_evaluate_method e = echo_firmware f0" and "zones_laid_out s"
    and "kstrtoul e buf 10 = (0, lv)" and "lv \<le> 100"
  shows "fst (brightness_set e buf count s) = count"
    and "zones_laid_out (snd (brightness_set e buf count s))"
    and "global_brightness (snd (brightness_set e buf count s)) = int lv"
    and "z < 4 \<Longrightarrow> original_colors (snd (brightness_set e buf count s)) ! z
           = zone_color (hw_frame f0 (wmi_calls s)) z"
    and "z < 4 \<Longrightarrow> zone_color (hw_frame f0 (wmi_calls (snd (brightness_set e buf count s)))) z
           = dimmed lv (zone_color (hw_frame f0 (wmi_calls s)) z)"
proof -
  define s1 where "s1 = s\<lparr>global_brightness := int lv\<rparr>"
  have lo1: "zones_laid_out s1"
    using assms(2) by (simp add: zones_laid_out_def s1_def)
  obtain s2 where l: "for_zones (brightness_set_zone e lv) [0..<4] s1 = (0, s2)"
    and sc: "same_control s1 s2"
    and oc: "\<forall>z<4. original_colors s2 ! z
            = (if z \<in> set [0..<4] then zone_color (hw_frame f0 (wmi_calls s1)) z
               else original_colors s1 ! z)"
    and hw: "\<forall>z<4. zone_color (hw_frame f0 (wmi_calls s2)) z
            = (if z \<in> set [0..<4] then dimmed lv (zone_color (hw_frame f0 (wmi_calls s1)) z)
               else zone_color (hw_frame f0 (wmi_calls s1)) z)"
    using echo_brightness_loop [OF assms(1) lo1, of "[0..<4]" lv] by auto
  have u: "brightness_set e buf count s = (count, save_animation_state e s2)"
    using assms(4) l by (simp add: brightness_set_def assms(3) Let_def s1_def [symmetric])
  show "fst (brightness_set e buf count s) = count"
    by (simp add: u)
  show "zones_laid_out (snd (brightness_set e buf count s))"
    using zones_laid_out_same [OF lo1 sc] by (simp add: u zones_laid_out_def save_keeps)
  show "global_brightness (snd (brightness_set e buf count s)) = int lv"
    using sc by (simp add: u save_keeps same_control_def s1_def)
  show "original_colors (snd (brightness_set e buf count s)) ! z
           = zone_color (hw_frame f0 (wmi_calls s)) z" if "z < 4"
    using oc that by (simp add: u save_keeps s1_def)
  show "zone_color (hw_frame f0 (wmi_calls (snd (brightness_set e buf count s)))) z
           = dimmed lv (zone_color (hw_frame f0 (wmi_calls s)) z)" if "z < 4"
    using hw that by (simp add: u save_keeps s1_def)
qed

lemma zone_color_lit_frame:
  "zone_color lit_frame 0 = \<lparr>blue = 50, green = 100, red = 200\<rparr>"
  "zone_color lit_frame (Suc 0) = \<lparr>blue = 30, green = 20, red = 10\<rparr>"
  by (simp_all add: zone_color_def frame_byte_def lit_frame_def nth_append)

lemma zones_laid_out_demo [simp]:
  "zones_laid_out demo_driver" "zones_laid_out painted_driver" "zones_laid_out animating_driver"
  by (simp_all add: zones_laid_out_def demo_driver_def painted_driver_def animating_driver_def black_def)

lemma kstrtoul_demo_50: "kstrtoul (demo_env f0) ''50'' 10 = (0, 50)"
  by (simp add: demo_env_def kernel_kstrtoul_def digit_of_def)

lemma dimmed_examples:
  "dimmed 50 \<lparr>blue = 50, green = 100, red = 200\<rparr> = \<lparr>blue = 25, green = 50, red = 100\<rparr>"
  "dimmed 50 \<lparr>blue = 25, green = 50, red = 100\<rparr> = \<lparr>blue = 12, green = 25, red = 50\<rparr>"
  by (simp_all add: dimmed_def)

lemma zones_laid_out_lit [simp]: "zones_laid_out lit_driver"
  by (simp add: zones_laid_out_def lit_driver_def demo_driver_def black_def)

lemma update_zone_calls:
  "\<exists>cs. wmi_calls (update_zone_with_color e cols z s) = wmi_calls s @ cs"
proof -
  define s2 where "s2 = (let s1 = s\<lparr>zone_data := (zone_data s)
                   [z := (zone_data s ! z)\<lparr>colors := cols ! z\<rparr>]\<rparr>
        in s1\<lparr>zone_data := (zone_data s1)
                   [z := (zone_data s1 ! z)
                      \<lparr>colors := apply_brightness_to_color s1 (colors (zone_data s1 ! z))\<rparr>]\<rparr>)"
  have c: "wmi_calls s2 = wmi_calls s"
    by (simp add: s2_def Let_def)
  have u: "update_zone_with_color e cols z s = snd (fourzone_update_led e z HPWMI_WRITE s2)"
    by (simp add: update_zone_with_color_def s2_def Let_def)
  obtain ret cs l where "fourzone_update_led e z HPWMI_WRITE s2 =
       (ret, s2\<lparr>wmi_calls := wmi_calls s2 @ cs, klog := klog s2 @ l\<rparr>)"
    using ful_write_shape [of e z s2] by blast
  then have "wmi_calls (update_zone_with_color e cols z s) = wmi_calls s @ cs"
    by (simp add: u c)
  then show ?thesis ..
qed

lemma update_zones_calls:
  "\<exists>cs. wmi_calls (fold (update_zone_with_color e cols) zs s) = wmi_calls s @ cs"
proof (induction zs arbitrary: s)
  case Nil
  then show ?case by simp
next
  case (Cons z zs)
  obtain cs where 1: "wmi_calls (update_zone_with_color e cols z s) = wmi_calls s @ cs"
    using update_zone_calls by blast
  obtain cs' where "wmi_calls (fold (update_zone_with_color e cols) zs (update_zone_with_color e cols z s))
      = wmi_calls (update_zone_with_color e cols z s) @ cs'"
    using Cons.IH by blast
  then have "wmi_calls (fold (update_zone_with_color e cols) (z # zs) s) = wmi_calls s @ (cs @ cs')"
    using 1 by simp
  then show ?case by blast
qed

lemma echo_update_zone:
  assumes "wmi_evaluate_method e = echo_firmware f0" and "z < length (zone_data s)"
  shows "wmi_calls (update_zone_with_color e cols z s) = wmi_calls s @
     [(3, get_args e),
      (3, set_args e ((zone_data s ! z)\<lparr>colors := apply_brightness_to_color s (cols ! z)\<rparr>)
            (hw_frame f0 (wmi_calls s)))]"
proof -
  have ab: "apply_brightness_to_color (s\<lparr>zone_data := zd\<rparr>) = apply_brightness_to_color s" for zd
    by (rule ext) (simp add: apply_brightness_to_color_def)
  show ?thesis
    using assms(2) by (simp add: update_zone_with_color_def Let_def echo_write [OF assms(1)] ab)
qed

lemma echo_stop_zone:
  assumes "wmi_evaluate_method e = echo_firmware f0" and "z < length (zone_data s)"
  shows "wmi_calls (stop_animation_zone e z s) = wmi_calls s @
     [(3, get_args e),
      (3, set_args e ((zone_data s ! z)\<lparr>colors := apply_brightness_to_color s (original_colors s ! z)\<rparr>)
            (hw_frame f0 (wmi_calls s)))]"
proof -
  have ab: "apply_brightness_to_color (s\<lparr>zone_data := zd\<rparr>) = apply_brightness_to_color s" for zd
    by (rule ext) (simp add: apply_brightness_to_color_def)
  show ?thesis
    using assms(2) by (simp add: stop_animation_zone_def Let_def echo_write [OF assms(1)] ab)
qed

lemma disco_first_frame:
  "animation_disco (demo_env f0) animating_driver =
     Some (update_all_zones_with_colors (demo_env f0)
             [\<lparr>blue = 0, green = 0, red = 255\<rparr>, \<lparr>blue = 0, green = 255, red = 0\<rparr>,
              \<lparr>blue = 255, green = 0, red = 0\<rparr>, \<lparr>blue = 255, green = 0, red = 255\<rparr>]
             animating_driver)"
  by (simp add: animation_disco_def demo_env_def animating_driver_def demo_driver_def Let_def)

lemma apply_brightness_examples:
  "apply_brightness_to_color animating_driver \<lparr>blue = 0, green = 0, red = 255\<rparr>
     = \<lparr>blue = 0, green = 0, red = 255\<rparr>"
  "apply_brightness_to_color lit_driver \<lparr>blue = 50, green = 100, red = 200\<rparr>
     = \<lparr>blue = 25, green = 50, red = 100\<rparr>"
  by (simp_all add: apply_brightness_to_color_def animating_driver_def lit_driver_def
      demo_driver_def signed_divide_int_def)

subsection \<open>Transport size classes\<close>

text \<open>
  C8. \<open>encode_outsize_for_pvsz\<close> is a step function of the requested length: lengths
  up to 0 give the smallest class 1; the class goes up by one just above 0, 4, 128 and
  1024; 4096 is the last length with a class (5) and every longer length is refused
  with \<open>-EINVAL\<close>, never clamped; over the accepted lengths the class is monotonic.
\<close>

theorem encode_outsize_step_function:
  "(n \<le> 0 \<longrightarrow> encode_outsize_for_pvsz n = 1)
   \<and> (0 < n \<and> n \<le> 4 \<longrightarrow> encode_outsize_for_pvsz n = 2)
   \<and> (4 < n \<and> n \<le> 128 \<longrightarrow> encode_outsize_for_pvsz n = 3)
   \<and> (128 < n \<and> n \<le> 1024 \<longrightarrow> encode_outsize_for_pvsz n = 4)
   \<and> (1024 < n \<and> n \<le> 4096 \<longrightarrow> encode_outsize_for_pvsz n = 5)
   \<and> (4096 < n \<longrightarrow> encode_outsize_for_pvsz n = - EINVAL)
   \<and> (m \<le> n \<and> n \<le> 4096 \<longrightarrow> encode_outsize_for_pvsz m \<le> encode_outsize_for_pvsz n)"
  by (simp add: encode_outsize_for_pvsz_def)

theorem encode_outsize_step_function_witness:
  "encode_outsize_for_pvsz (- 3) = 1 \<and> encode_outsize_for_pvsz 0 = 1
   \<and> encode_outsize_for_pvsz 1 = 2 \<and> encode_outsize_for_pvsz 4 = 2
   \<and> encode_outsize_for_pvsz 5 = 3 \<and> encode_outsize_for_pvsz 128 = 3
   \<and> encode_outsize_for_pvsz 129 = 4 \<and> encode_outsize_for_pvsz 1024 = 4
   \<and> encode_outsize_for_pvsz 1025 = 5 \<and> encode_outsize_for_pvsz 4096 = 5
   \<and> encode_outsize_for_pvsz 4097 = - 22
   \<and> encode_outsize_for_pvsz 100 \<le> encode_outsize_for_pvsz 2000"
  using encode_outsize_step_function [of "- 3" 0] encode_outsize_step_function [of 0 0]
    encode_outsize_step_function [of 1 0] encode_outsize_step_function [of 4 0]
    encode_outsize_step_function [of 5 0] encode_outsize_step_function [of 128 0]
    encode_outsize_step_function [of 129 0] encode_outsize_step_function [of 1024 0]
    encode_outsize_step_function [of 1025 0] encode_outsize_step_function [of 4096 0]
    encode_outsize_step_function [of 4097 0] encode_outsize_step_function [of 2000 100]
  by simp

subsection \<open>Brightness scaling\<close>

text \<open>
  C6. \<open>apply_brightness_to_color\<close> computes each of red, green and blue on its own as
  channel * percent / 100, truncated. For a percentage from 0 to 100 no output channel
  exceeds its input; at 100 the color is unchanged; at 0 it is (0, 0, 0).
\<close>

theorem apply_brightness_channels:
  "(0 \<le> global_brightness s \<and> global_brightness s \<le> 100 \<longrightarrow>
      uint (red (apply_brightness_to_color s c)) = uint (red c) * global_brightness s div 100
      \<and> uint (green (apply_brightness_to_color s c)) = uint (green c) * global_brightness s div 100
      \<and> uint (blue (apply_brightness_to_color s c)) = uint (blue c) * global_brightness s div 100
      \<and> red (apply_brightness_to_color s c) \<le> red c
      \<and> green (apply_brightness_to_color s c) \<le> green c
      \<and> blue (apply_brightness_to_color s c) \<le> blue c)
   \<and> (global_brightness s = 100 \<longrightarrow> apply_brightness_to_color s c = c)
   \<and> (global_brightness s = 0 \<longrightarrow>
        apply_brightness_to_color s c = c\<lparr>red := 0, green := 0, blue := 0\<rparr>)"
proof (intro conjI impI)
  assume b: "0 \<le> global_brightness s \<and> global_brightness s \<le> 100"
  then have b0: "0 \<le> global_brightness s" and b1: "global_brightness s \<le> 100"
    by simp_all
  show r: "uint (red (apply_brightness_to_color s c)) = uint (red c) * global_brightness s div 100"
    by (simp add: apply_brightness_to_color_def scaled_channel_uint(1) [OF b0 b1])
  show g: "uint (green (apply_brightness_to_color s c)) = uint (green c) * global_brightness s div 100"
    by (simp add: apply_brightness_to_color_def scaled_channel_uint(1) [OF b0 b1])
  show bl: "uint (blue (apply_brightness_to_color s c)) = uint (blue c) * global_brightness s div 100"
    by (simp add: apply_brightness_to_color_def scaled_channel_uint(1) [OF b0 b1])
  show "red (apply_brightness_to_color s c) \<le> red c"
    using r scaled_channel_uint(2) [OF b0 b1, of "red c"] by (simp add: word_le_def)
  show "green (apply_brightness_to_color s c) \<le> green c"
    using g scaled_channel_uint(2) [OF b0 b1, of "green c"] by (simp add: word_le_def)
  show "blue (apply_brightness_to_color s c) \<le> blue c"
    using bl scaled_channel_uint(2) [OF b0 b1, of "blue c"] by (simp add: word_le_def)
next
  assume "global_brightness s = 100"
  then show "apply_brightness_to_color s c = c"
    by (simp add: apply_brightness_to_color_def scaled_channel_full)
next
  assume "global_brightness s = 0"
  then show "apply_brightness_to_color s c = c\<lparr>red := 0, green := 0, blue := 0\<rparr>"
    by (simp add: apply_brightness_to_color_def)
qed

theorem apply_brightness_channels_witness:
  "apply_brightness_to_color (demo_driver\<lparr>global_brightness := 50\<rparr>)
       \<lparr>blue = 7, green = 128, red = 255\<rparr> = \<lparr>blue = 3, green = 64, red = 127\<rparr>
   \<and> apply_brightness_to_color (demo_driver\<lparr>global_brightness := 100\<rparr>)
       \<lparr>blue = 7, green = 128, red = 255\<rparr> = \<lparr>blue = 7, green = 128, red = 255\<rparr>
   \<and> apply_brightness_to_color (demo_driver\<lparr>global_brightness := 0\<rparr>)
       \<lparr>blue = 7, green = 128, red = 255\<rparr> = \<lparr>blue = 0, green = 0, red = 0\<rparr>"
proof -
  let ?c = "\<lparr>blue = 7, green = 128, red = 255 :: u8\<rparr>"
  have "uint (red (apply_brightness_to_color (demo_driver\<lparr>global_brightness := 50\<rparr>) ?c)) = 127"
    and "uint (green (apply_brightness_to_color (demo_driver\<lparr>global_brightness := 50\<rparr>) ?c)) = 64"
    and "uint (blue (apply_brightness_to_color (demo_driver\<lparr>global_brightness := 50\<rparr>) ?c)) = 3"
    using apply_brightness_channels [of "demo_driver\<lparr>global_brightness := 50\<rparr>" ?c]
    by simp_all
  then have "red (apply_brightness_to_color (demo_driver\<lparr>global_brightness := 50\<rparr>) ?c) = 127"
    and "green (apply_brightness_to_color (demo_driver\<lparr>global_brightness := 50\<rparr>) ?c) = 64"
    and "blue (apply_brightness_to_color (demo_driver\<lparr>global_brightness := 50\<rparr>) ?c) = 3"
    by (simp_all add: word_uint_eq_iff)
  then have "apply_brightness_to_color (demo_driver\<lparr>global_brightness := 50\<rparr>) ?c
      = \<lparr>blue = 3, green = 64, red = 127\<rparr>"
    by (cases "apply_brightness_to_color (demo_driver\<lparr>global_brightness := 50\<rparr>) ?c") simp
  then show ?thesis
    using apply_brightness_channels [of "demo_driver\<lparr>global_brightness := 100\<rparr>" ?c]
      apply_brightness_channels [of "demo_driver\<lparr>global_brightness := 0\<rparr>" ?c]
    by simp
qed

subsection \<open>Color parsing\<close>

text \<open>
  C3. \<open>parse_rgb\<close> accepts every text that \<open>kstrtoul\<close> reads in base 16 as a number of
  at most 0xFFFFFF, and then red is the number's third-lowest byte, green the second
  and blue the lowest (the digits read as RRGGBB); a larger number fails with
  \<open>-EINVAL\<close> and an unreadable text fails with the status of \<open>kstrtoul\<close>, the zone
  being left as it was.
\<close>

theorem parse_rgb_accepts_up_to_ffffff:
  "(kstrtoul e buf 16 = (0, rgb) \<and> rgb \<le> 0xFFFFFF \<longrightarrow>
      fst (parse_rgb e buf zone) = 0
      \<and> offset (snd (parse_rgb e buf zone)) = offset zone
      \<and> attr (snd (parse_rgb e buf zone)) = attr zone
      \<and> unat (red (colors (snd (parse_rgb e buf zone)))) = rgb div 65536
      \<and> unat (green (colors (snd (parse_rgb e buf zone)))) = rgb div 256 mod 256
      \<and> unat (blue (colors (snd (parse_rgb e buf zone)))) = rgb mod 256)
   \<and> (kstrtoul e buf 16 = (0, rgb) \<and> 0xFFFFFF < rgb \<longrightarrow>
        parse_rgb e buf zone = (- EINVAL, zone))
   \<and> (kstrtoul e buf 16 = (ret, rgb) \<and> ret \<noteq> 0 \<longrightarrow> parse_rgb e buf zone = (ret, zone))"
  by (simp add: parse_rgb_def repackager_channels)

theorem parse_rgb_accepts_up_to_ffffff_witness:
  "fst (parse_rgb (demo_env []) ''FF8040'' \<lparr>offset = 25, attr = 0, colors = black\<rparr>) = 0
   \<and> unat (red (colors (snd (parse_rgb (demo_env []) ''FF8040''
                                 \<lparr>offset = 25, attr = 0, colors = black\<rparr>)))) = 255
   \<and> unat (green (colors (snd (parse_rgb (demo_env []) ''FF8040''
                                   \<lparr>offset = 25, attr = 0, colors = black\<rparr>)))) = 128
   \<and> unat (blue (colors (snd (parse_rgb (demo_env []) ''FF8040''
                                  \<lparr>offset = 25, attr = 0, colors = black\<rparr>)))) = 64
   \<and> parse_rgb (demo_env []) ''1000000'' \<lparr>offset = 25, attr = 0, colors = black\<rparr>
        = (- 22, \<lparr>offset = 25, attr = 0, colors = black\<rparr>)
   \<and> parse_rgb (demo_env []) ''GG0000'' \<lparr>offset = 25, attr = 0, colors = black\<rparr>
        = (- 22, \<lparr>offset = 25, attr = 0, colors = black\<rparr>)"
  using
    parse_rgb_accepts_up_to_ffffff [of "demo_env []" "''FF8040''" "0xFF8040"
      "\<lparr>offset = 25, attr = 0, colors = black\<rparr>" 0]
    parse_rgb_accepts_up_to_ffffff [of "demo_env []" "''1000000''" "0x1000000"
      "\<lparr>offset = 25, attr = 0, colors = black\<rparr>" 0]
    parse_rgb_accepts_up_to_ffffff [of "demo_env []" "''GG0000''" 0
      "\<lparr>offset = 25, attr = 0, colors = black\<rparr>" "- 22"]
  by (simp add: demo_env_def kernel_kstrtoul_def digit_of_def)

subsection \<open>Firmware status codes\<close>

text \<open>
  C9. When the firmware answers a well-formed query with a buffer whose status code is
  not zero, \<open>hp_wmi_perform_query\<close> returns that code (as an \<open>int\<close>, and not zero) and
  leaves the caller's buffer alone; the codes 0x03 and 0x04 add nothing to the kernel
  log, every other code adds the warning with the query and the code.
\<close>

theorem query_returns_firmware_status:
  assumes "outsize \<le> 4096" and "0 \<le> insize" and "insize \<le> 128"
    and "wmi_evaluate_method e (wmi_calls s) (encode_outsize_for_pvsz outsize)
           (query_args query cmd buffer insize) = Some (ACPI_BUFFER sg rc pl)"
    and "rc \<noteq> 0"
  shows "fst (hp_wmi_perform_query e query cmd buffer insize outsize s) = sint rc
     \<and> sint rc \<noteq> 0
     \<and> fst (snd (hp_wmi_perform_query e query cmd buffer insize outsize s)) = buffer
     \<and> klog (snd (snd (hp_wmi_perform_query e query cmd buffer insize outsize s)))
         = klog s @ (if rc = 3 \<or> rc = 4 then [] else [Warn_query query (sint rc)])"
proof -
  have mid: "\<not> encode_outsize_for_pvsz outsize < 0"
    using assms(1) by (simp add: encode_outsize_for_pvsz_def)
  have nz: "sint rc \<noteq> 0"
    using assms(5) by (simp add: sint_eq_small)
  show ?thesis
    using mid nz assms(2,3,4)
    by (simp add: hp_wmi_perform_query_def Let_def sint_eq_small)
qed

theorem query_returns_firmware_status_witness:
  "fst (hp_wmi_perform_query
          ((demo_env [])\<lparr>wmi_evaluate_method := (\<lambda>calls mid a. Some (ACPI_BUFFER 0 5 []))\<rparr>)
          2 HPWMI_FOURZONE [1, 2, 3] 3 128 demo_driver) = 5
   \<and> klog (snd (snd (hp_wmi_perform_query
          ((demo_env [])\<lparr>wmi_evaluate_method := (\<lambda>calls mid a. Some (ACPI_BUFFER 0 5 []))\<rparr>)
          2 HPWMI_FOURZONE [1, 2, 3] 3 128 demo_driver))) = [Warn_query 2 5]
   \<and> fst (hp_wmi_perform_query
          ((demo_env [])\<lparr>wmi_evaluate_method := (\<lambda>calls mid a. Some (ACPI_BUFFER 0 3 []))\<rparr>)
          2 HPWMI_FOURZONE [1, 2, 3] 3 128 demo_driver) = 3
   \<and> klog (snd (snd (hp_wmi_perform_query
          ((demo_env [])\<lparr>wmi_evaluate_method := (\<lambda>calls mid a. Some (ACPI_BUFFER 0 3 []))\<rparr>)
          2 HPWMI_FOURZONE [1, 2, 3] 3 128 demo_driver))) = []"
  using
    query_returns_firmware_status [of 128 3
      "(demo_env [])\<lparr>wmi_evaluate_method := (\<lambda>calls mid a. Some (ACPI_BUFFER 0 5 []))\<rparr>"
      demo_driver 2 HPWMI_FOURZONE "[1, 2, 3]" 0 5 "[]"]
    query_returns_firmware_status [of 128 3
      "(demo_env [])\<lparr>wmi_evaluate_method := (\<lambda>calls mid a. Some (ACPI_BUFFER 0 3 []))\<rparr>"
      demo_driver 2 HPWMI_FOURZONE "[1, 2, 3]" 0 3 "[]"]
  by (simp add: demo_driver_def)

subsection \<open>A color that does not parse\<close>

text \<open>
  C10. When the text does not parse as a color (\<open>kstrtoul\<close> fails, or the number
  exceeds 0xFFFFFF), \<open>zone_set\<close> on an existing zone and \<open>all_set\<close> return the error and
  the whole state is as before: zone colors, original colors, animation mode, active
  flag and timer, and the list of firmware requests, so nothing was sent.
\<close>

theorem parse_failure_is_atomic:
  assumes "fst (kstrtoul e buf 16) \<noteq> 0 \<or> 0xFFFFFF < snd (kstrtoul e buf 16)"
  shows "(match_zone s a \<noteq> None \<longrightarrow>
            zone_set e a buf count s
              = (if fst (kstrtoul e buf 16) \<noteq> 0 then fst (kstrtoul e buf 16) else - EINVAL, s))
     \<and> all_set e temp buf count s
          = (if fst (kstrtoul e buf 16) \<noteq> 0 then fst (kstrtoul e buf 16) else - EINVAL, s)"
  using assms
  by (cases "kstrtoul e buf 16") (auto simp add: zone_set_def all_set_def parse_rgb_def)

theorem parse_failure_is_atomic_witness:
  "match_zone demo_driver 2 = Some 2
   \<and> zone_set (demo_env []) 2 ''GG0000'' 6 demo_driver = (- 22, demo_driver)
   \<and> all_set (demo_env []) \<lparr>offset = 0, attr = 0, colors = black\<rparr> ''1000000'' 7 demo_driver
        = (- 22, demo_driver)"
proof -
  have k: "kstrtoul (demo_env []) ''GG0000'' 16 = (- 22, 0)"
    "kstrtoul (demo_env []) ''1000000'' 16 = (0, 0x1000000)"
    by (simp_all add: demo_env_def kernel_kstrtoul_def digit_of_def)
  have m: "match_zone demo_driver 2 = Some 2"
    by (simp add: match_zone_def demo_driver_def zone_indices)
  show ?thesis
    using m k
      parse_failure_is_atomic [of "demo_env []" "''GG0000''" demo_driver 2 6
        "\<lparr>offset = 0, attr = 0, colors = black\<rparr>"]
      parse_failure_is_atomic [of "demo_env []" "''1000000''" demo_driver 2 7
        "\<lparr>offset = 0, attr = 0, colors = black\<rparr>"]
    by simp
qed

subsection \<open>The zones in the wire frame\<close>






subsection \<open>Saving and loading the state\<close>

text \<open>
  C7 (amended). With a writable state file, saving a state whose speed is in 1..10 and
  whose brightness is in 0..100 (any mode, any four colors) and loading it into any
  driver state gives back the same mode, speed, brightness and four colors. A file
  shorter than the 24-byte record is rejected as a whole: nothing but the log changes.
  From a file of at least 24 bytes each of mode, speed and brightness is checked on its
  own: a value in range is applied, a value out of range leaves the in-memory value.
\<close>

theorem save_load_roundtrip:
  "(filp_open_wr e \<and> 1 \<le> animation_speed s \<and> animation_speed s \<le> 10
      \<and> 0 \<le> global_brightness s \<and> global_brightness s \<le> 100
      \<and> length (original_colors s) = ZONE_COUNT \<and> length (original_colors t) = ZONE_COUNT \<longrightarrow>
      current_animation (load_animation_state (t\<lparr>state_file := state_file (save_animation_state e s)\<rparr>))
        = current_animation s
      \<and> animation_speed (load_animation_state (t\<lparr>state_file := state_file (save_animation_state e s)\<rparr>))
        = animation_speed s
      \<and> global_brightness (load_animation_state (t\<lparr>state_file := state_file (save_animation_state e s)\<rparr>))
        = global_brightness s
      \<and> original_colors (load_animation_state (t\<lparr>state_file := state_file (save_animation_state e s)\<rparr>))
        = original_colors s)
   \<and> (state_file t = Some f \<and> length f < sizeof_animation_state \<longrightarrow>
        load_animation_state t = t\<lparr>klog := klog t @ [Warn_read_failed]\<rparr>)
   \<and> (state_file t = Some f \<and> sizeof_animation_state \<le> length f \<longrightarrow>
        current_animation (load_animation_state t)
           = (if unat (rd32 (take 4 f)) < ANIMATION_COUNT then mode_of_value (unat (rd32 (take 4 f)))
              else current_animation t)
        \<and> animation_speed (load_animation_state t)
           = (if ANIMATION_SPEED_MIN \<le> sint (rd32 (take 4 (drop 4 f)))
                 \<and> sint (rd32 (take 4 (drop 4 f))) \<le> ANIMATION_SPEED_MAX
              then sint (rd32 (take 4 (drop 4 f))) else animation_speed t)
        \<and> global_brightness (load_animation_state t)
           = (if 0 \<le> sint (rd32 (take 4 (drop 8 f))) \<and> sint (rd32 (take 4 (drop 8 f))) \<le> 100
              then sint (rd32 (take 4 (drop 8 f))) else global_brightness t))"
  using save_load_fields [of e s t] load_short [of t f] load_fields(1,2,3) [of t f]
  by blast

theorem save_load_roundtrip_witness:
  "current_animation (load_animation_state (demo_driver
       \<lparr>state_file := state_file (save_animation_state (demo_env [])
          (painted_driver\<lparr>current_animation := ANIMATION_DISCO, animation_speed := 7,
                           global_brightness := 30\<rparr>))\<rparr>)) = ANIMATION_DISCO
   \<and> animation_speed (load_animation_state (demo_driver
       \<lparr>state_file := state_file (save_animation_state (demo_env [])
          (painted_driver\<lparr>current_animation := ANIMATION_DISCO, animation_speed := 7,
                           global_brightness := 30\<rparr>))\<rparr>)) = 7
   \<and> global_brightness (load_animation_state (demo_driver
       \<lparr>state_file := state_file (save_animation_state (demo_env [])
          (painted_driver\<lparr>current_animation := ANIMATION_DISCO, animation_speed := 7,
                           global_brightness := 30\<rparr>))\<rparr>)) = 30
   \<and> load_animation_state (demo_driver\<lparr>state_file := Some [1, 2, 3]\<rparr>)
        = demo_driver\<lparr>state_file := Some [1, 2, 3], klog := [Warn_read_failed]\<rparr>
   \<and> current_animation (load_animation_state (demo_driver\<lparr>state_file := Some
         [77, 0, 0, 0, 5, 0, 0, 0, 50, 0, 0, 0, 1, 2, 3, 4, 5, 6, 7, 8, 9, 10, 11, 12]\<rparr>))
        = ANIMATION_STATIC
   \<and> animation_speed (load_animation_state (demo_driver\<lparr>state_file := Some
         [77, 0, 0, 0, 5, 0, 0, 0, 50, 0, 0, 0, 1, 2, 3, 4, 5, 6, 7, 8, 9, 10, 11, 12]\<rparr>)) = 5
   \<and> global_brightness (load_animation_state (demo_driver\<lparr>state_file := Some
         [77, 0, 0, 0, 5, 0, 0, 0, 50, 0, 0, 0, 1, 2, 3, 4, 5, 6, 7, 8, 9, 10, 11, 12]\<rparr>)) = 50"
proof -
  have r: "rd32 [77, 0, 0, 0] = 77" "rd32 [5, 0, 0, 0] = 5" "rd32 [50, 0, 0, 0] = 50"
    by (simp_all add: rd32_def)
  show ?thesis
    using
      save_load_roundtrip [of "demo_env []"
        "painted_driver\<lparr>current_animation := ANIMATION_DISCO, animation_speed := 7,
                         global_brightness := 30\<rparr>" demo_driver "[]"]
      save_load_roundtrip [of "demo_env []" demo_driver
        "demo_driver\<lparr>state_file := Some [1, 2, 3]\<rparr>" "[1, 2, 3]"]
      save_load_roundtrip [of "demo_env []" demo_driver
        "demo_driver\<lparr>state_file := Some
           [77, 0, 0, 0, 5, 0, 0, 0, 50, 0, 0, 0, 1, 2, 3, 4, 5, 6, 7, 8, 9, 10, 11, 12]\<rparr>"
        "[77, 0, 0, 0, 5, 0, 0, 0, 50, 0, 0, 0, 1, 2, 3, 4, 5, 6, 7, 8, 9, 10, 11, 12]"]
    by (simp add: r demo_env_def painted_driver_def demo_driver_def)
qed

theorem oversized_record_counterexample:
  "length [2, 0, 0, 0, 5, 0, 0, 0, 50, 0, 0, 0, 1, 2, 3, 4, 5, 6, 7, 8, 9, 10, 11, 12, 0 :: u8] = 25
   \<and> current_animation demo_driver = ANIMATION_STATIC
   \<and> animation_speed demo_driver = 1
   \<and> global_brightness demo_driver = 100
   \<and> current_animation (load_animation_state (demo_driver\<lparr>state_file := Some
         [2, 0, 0, 0, 5, 0, 0, 0, 50, 0, 0, 0, 1, 2, 3, 4, 5, 6, 7, 8, 9, 10, 11, 12, 0]\<rparr>))
        = ANIMATION_RAINBOW
   \<and> animation_speed (load_animation_state (demo_driver\<lparr>state_file := Some
         [2, 0, 0, 0, 5, 0, 0, 0, 50, 0, 0, 0, 1, 2, 3, 4, 5, 6, 7, 8, 9, 10, 11, 12, 0]\<rparr>)) = 5
   \<and> global_brightness (load_animation_state (demo_driver\<lparr>state_file := Some
         [2, 0, 0, 0, 5, 0, 0, 0, 50, 0, 0, 0, 1, 2, 3, 4, 5, 6, 7, 8, 9, 10, 11, 12, 0]\<rparr>)) = 50"
proof -
  let ?f = "[2, 0, 0, 0, 5, 0, 0, 0, 50, 0, 0, 0, 1, 2, 3, 4, 5, 6, 7, 8, 9, 10, 11, 12, 0 :: u8]"
  have r: "rd32 [2, 0, 0, 0] = 2" "rd32 [5, 0, 0, 0] = 5" "rd32 [50, 0, 0, 0] = 50"
    by (simp_all add: rd32_def)
  have sf: "state_file (demo_driver\<lparr>state_file := Some ?f\<rparr>) = Some ?f"
    by simp
  have len: "24 \<le> length ?f"
    by simp
  show ?thesis
    by (simp add: load_fields(1,2,3) [OF sf len] r mode_of_value_def) (simp add: demo_driver_def)
qed


subsection \<open>Direct writes and the running animation\<close>






subsection \<open>Brightness changes re-read the hardware\<close>

text \<open>
  C5 (amended). For each zone in turn, setting brightness reads the zone's current
  color from the hardware (the payload of the GET, not the stored original color),
  stores it as the zone's original color, and every SET it then sends holds that color
  scaled by the new percentage. On a keyboard that returns the frame it was last sent,
  the color read back is the one the previous brightness write left there: after
  brightness \<open>p\<close> and then \<open>q\<close> each zone's original color is the first hardware color
  scaled by \<open>p\<close> and the hardware holds that color scaled again by \<open>q\<close>, so the scaling
  compounds.
\<close>

theorem brightness_rescales_hardware_colors:
  "(zones_laid_out s \<and> z < ZONE_COUNT \<and> level \<le> 100 \<and> global_brightness s = int level
      \<and> get_payload e s = Some pl \<longrightarrow>
      original_colors (snd (brightness_set_zone e level z s)) ! z = zone_color pl z
      \<and> zone_writes (int level) {z} s (snd (brightness_set_zone e level z s)))
   \<and> (wmi_evaluate_method e = echo_firmware f0 \<and> zones_laid_out s \<and> z < ZONE_COUNT
      \<and> kstrtoul e buf 10 = (0, p) \<and> p \<le> 100 \<and> kstrtoul e buf' 10 = (0, q) \<and> q \<le> 100 \<longrightarrow>
      original_colors (snd (brightness_set e buf count s)) ! z
        = zone_color (hw_frame f0 (wmi_calls s)) z
      \<and> zone_color (hw_frame f0 (wmi_calls (snd (brightness_set e buf count s)))) z
        = dimmed p (zone_color (hw_frame f0 (wmi_calls s)) z)
      \<and> original_colors (snd (brightness_set e buf' count' (snd (brightness_set e buf count s)))) ! z
        = dimmed p (zone_color (hw_frame f0 (wmi_calls s)) z)
      \<and> zone_color (hw_frame f0 (wmi_calls
            (snd (brightness_set e buf' count' (snd (brightness_set e buf count s)))))) z
        = dimmed q (dimmed p (zone_color (hw_frame f0 (wmi_calls s)) z)))"
proof (intro conjI impI)
  assume a: "zones_laid_out s \<and> z < ZONE_COUNT \<and> level \<le> 100 \<and> global_brightness s = int level
      \<and> get_payload e s = Some pl"
  then show "original_colors (snd (brightness_set_zone e level z s)) ! z = zone_color pl z"
    using brightness_set_zone_original [of e s pl z level] by simp
  show "zone_writes (int level) {z} s (snd (brightness_set_zone e level z s))"
    using a brightness_set_zone_step [of s level z e, OF _ _ _ _ surjective_pairing] by simp
next
  assume a: "wmi_evaluate_method e = echo_firmware f0 \<and> zones_laid_out s \<and> z < ZONE_COUNT
      \<and> kstrtoul e buf 10 = (0, p) \<and> p \<le> 100 \<and> kstrtoul e buf' 10 = (0, q) \<and> q \<le> 100"
  let ?s1 = "snd (brightness_set e buf count s)"
  have e: "wmi_evaluate_method e = echo_firmware f0" and lo: "zones_laid_out s" and z: "z < 4"
    and kp: "kstrtoul e buf 10 = (0, p)" "p \<le> 100" and kq: "kstrtoul e buf' 10 = (0, q)" "q \<le> 100"
    using a by simp_all
  note first = echo_brightness_set [OF e lo kp, where count = count]
  note second = echo_brightness_set [OF e first(2) kq, where count = count']
  show "original_colors ?s1 ! z = zone_color (hw_frame f0 (wmi_calls s)) z"
    using first(4) [OF z] .
  show "zone_color (hw_frame f0 (wmi_calls ?s1)) z = dimmed p (zone_color (hw_frame f0 (wmi_calls s)) z)"
    using first(5) [OF z] .
  show "original_colors (snd (brightness_set e buf' count' ?s1)) ! z
        = dimmed p (zone_color (hw_frame f0 (wmi_calls s)) z)"
    using second(4) [OF z] first(5) [OF z] by simp
  show "zone_color (hw_frame f0 (wmi_calls (snd (brightness_set e buf' count' ?s1)))) z
        = dimmed q (dimmed p (zone_color (hw_frame f0 (wmi_calls s)) z))"
    using second(5) [OF z] first(5) [OF z] by simp
qed

theorem brightness_rescales_hardware_colors_witness:
  "get_payload (demo_env lit_frame) demo_driver = Some lit_frame
   \<and> original_colors (snd (brightness_set_zone (demo_env lit_frame) 100 1 demo_driver)) ! 1
        = \<lparr>blue = 30, green = 20, red = 10\<rparr>
   \<and> original_colors (snd (brightness_set (demo_env lit_frame) ''50'' 2 demo_driver)) ! 0
        = \<lparr>blue = 50, green = 100, red = 200\<rparr>
   \<and> zone_color (hw_frame lit_frame (wmi_calls
          (snd (brightness_set (demo_env lit_frame) ''50'' 2 demo_driver)))) 0
        = \<lparr>blue = 25, green = 50, red = 100\<rparr>"
proof -
  have g: "get_payload (demo_env lit_frame) demo_driver = Some lit_frame"
    by (simp add: echo_get_payload demo_driver_def)
  have b: "global_brightness demo_driver = int 100"
    by (simp add: demo_driver_def)
  have c: "wmi_calls demo_driver = []"
    by (simp add: demo_driver_def)
  show ?thesis
    using g b
      brightness_rescales_hardware_colors [of demo_driver 1 100 "demo_env lit_frame" lit_frame
        lit_frame "''50''" 50 "''50''" 50 2 2]
      brightness_rescales_hardware_colors [of demo_driver 0 100 "demo_env lit_frame" lit_frame
        lit_frame "''50''" 50 "''50''" 50 2 2]
    by (simp add: kstrtoul_demo_50 c zone_color_lit_frame dimmed_examples)
qed

theorem brightness_twice_counterexample:
  "zone_color (hw_frame lit_frame (wmi_calls demo_driver)) 0 = \<lparr>blue = 50, green = 100, red = 200\<rparr>
   \<and> fst (brightness_set (demo_env lit_frame) ''50'' 2 demo_driver) = 2
   \<and> zone_color (hw_frame lit_frame (wmi_calls
          (snd (brightness_set (demo_env lit_frame) ''50'' 2 demo_driver)))) 0
        = \<lparr>blue = 25, green = 50, red = 100\<rparr>
   \<and> fst (brightness_set (demo_env lit_frame) ''50'' 2
          (snd (brightness_set (demo_env lit_frame) ''50'' 2 demo_driver))) = 2
   \<and> original_colors (snd (brightness_set (demo_env lit_frame) ''50'' 2
          (snd (brightness_set (demo_env lit_frame) ''50'' 2 demo_driver)))) ! 0
        = \<lparr>blue = 25, green = 50, red = 100\<rparr>
   \<and> zone_color (hw_frame lit_frame (wmi_calls
          (snd (brightness_set (demo_env lit_frame) ''50'' 2
            (snd (brightness_set (demo_env lit_frame) ''50'' 2 demo_driver)))))) 0
        = \<lparr>blue = 12, green = 25, red = 50\<rparr>"
proof -
  let ?E = "demo_env lit_frame"
  have e: "wmi_evaluate_method ?E = echo_firmware lit_frame"
    by simp
  have c: "wmi_calls demo_driver = []"
    by (simp add: demo_driver_def)
  have k: "kstrtoul ?E ''50'' 10 = (0, 50)"
    by (rule kstrtoul_demo_50)
  note first = echo_brightness_set [OF e zones_laid_out_demo(1) k, where count = 2]
  note second = echo_brightness_set [OF e first(2) k, where count = 2]
  show ?thesis
    using first(1) first(4) [where z = 0] first(5) [where z = 0] second(1) second(4) [where z = 0] second(5) [where z = 0]
    by (simp add: c zone_color_lit_frame dimmed_examples)
qed


subsection \<open>The colors that reach the hardware\<close>





end
